theory Spec2Isabelle
  imports Complex_Main "HOL-Library.Word" "HOL-Library.Sublist" "HOL-Library.Multiset"
begin

section \<open>JavaScript values of the client logger\<close>

text \<open>
  A JavaScript string is a sequence of UTF-16 code units; \<open>length\<close> and \<open>slice\<close>
  count code units. String literals of the source are ASCII apart from the ellipsis
  U+2026, which is one code unit.
\<close>

type_synonym jsstring = "16 word list"

definition ascii :: "string \<Rightarrow> jsstring" where
  "ascii s = map (\<lambda>c. word_of_nat (of_char c)) s"

text \<open>What a \<open>throw\<close> carries, as far as this code can tell them apart.\<close>

datatype error = TypeError | ReferenceError | OtherError

text \<open>
  Numbers are IEEE doubles; every finite double is a rational, and the code only tests
  them for truthiness and passes them on, so \<open>Fin 0\<close> stands for both zeros.
\<close>

datatype jsnum = NaN | PosInf | NegInf | Fin rat

text \<open>
  How an object converts to a string (ECMAScript ToString, through ToPrimitive): with a
  fixed outcome, a text or an exception (an object without a usable
  \<open>toString\<close>/\<open>valueOf\<close>, such as \<open>Object.create(null)\<close>, raises TypeError), or by
  running a \<open>toString\<close>/\<open>valueOf\<close> of the page's own, named by its number.
\<close>

datatype conversion = Fixed "error + jsstring" | PageCode nat

text \<open>
  An object has data properties, accessor properties (each a getter of the page's
  own, named by its number; an accessor hides a data property of the same name) and a
  string conversion. Arrays, functions and symbols are objects for this code: truthy,
  not strings.
\<close>

datatype jsval =
    JUndefined
  | JNull
  | JBool bool
  | JNum jsnum
  | JStr jsstring
  | JObj "(jsstring \<times> jsval) list" "(jsstring \<times> nat) list" conversion

fun truthy :: "jsval \<Rightarrow> bool" where
  "truthy JUndefined = False"
| "truthy JNull = False"
| "truthy (JBool b) = b"
| "truthy (JNum n) = (n \<noteq> NaN \<and> n \<noteq> Fin 0)"
| "truthy (JStr s) = (s \<noteq> [])"
| "truthy (JObj ps gs c) = True"

text \<open>\<open>a || b\<close> for an operand \<open>b\<close> whose evaluation has no effect.\<close>

definition js_or :: "jsval \<Rightarrow> jsval \<Rightarrow> jsval" where
  "js_or a b = (if truthy a then a else b)"

text \<open>\<open>typeof v === 'string'\<close>\<close>

fun is_string :: "jsval \<Rightarrow> bool" where
  "is_string (JStr s) = True"
| "is_string v = False"

definition and_then :: "error + 'a \<Rightarrow> ('a \<Rightarrow> error + 'b) \<Rightarrow> error + 'b" where
  "and_then r f = (case r of Inl e \<Rightarrow> Inl e | Inr x \<Rightarrow> f x)"

text \<open>An object literal \<open>{k1: v1, ...}\<close>; its string conversion is \<open>[object Object]\<close>.\<close>

definition object_literal :: "(jsstring \<times> jsval) list \<Rightarrow> jsval" where
  "object_literal ps = JObj ps [] (Fixed (Inr (ascii ''[object Object]'')))"

section \<open>The browser\<close>

datatype settlement = Fulfilled | Rejected error

record blob =
  parts :: "jsval list"
  blob_type :: jsstring

record fetch_init =
  init_method :: jsstring
  init_headers :: "(jsstring \<times> jsstring) list"
  init_body :: jsval
  init_keepalive :: bool

datatype net_call = SendBeacon jsstring blob | Fetch jsstring fetch_init

record promise =
  outcome :: settlement
  handled :: bool

text \<open>
  The state of the page: what the code reads (\<open>window.location.href\<close>,
  \<open>navigator.userAgent\<close>, the text \<open>new Date().toISOString()\<close> gives now), the
  document together with the variables of the page's own scripts, the network calls
  made so far, and the promises created so far.
\<close>

record 'd browser =
  href :: jsstring
  userAgent :: jsstring
  now_iso :: jsstring
  document :: 'd
  net_calls :: "net_call list"
  promises :: "promise list"

text \<open>
  What the logger runs but does not define. Built-in functions whose algorithm is the
  platform's: number formatting, \<open>JSON.stringify\<close> (a string, \<open>undefined\<close>, or an
  exception for a value that cannot be serialised), whether \<open>navigator.sendBeacon\<close>
  exists, and what the \<open>Blob\<close> constructor, \<open>sendBeacon\<close> and \<open>fetch\<close> do when
  called. And the code of the page that objects handed to the logger carry (getters,
  \<open>toString\<close>, \<open>valueOf\<close>): given the document and the page's variables, a piece of
  page code returns a value or raises, makes network calls, and leaves the document and
  the variables changed. It does not navigate, and does not change the user agent or
  the clock.
\<close>

record 'd builtins =
  Number_toString :: "jsnum \<Rightarrow> jsstring"
  JSON_stringify :: "jsval \<Rightarrow> error + jsval"
  has_sendBeacon :: bool
  new_Blob :: "jsval list \<Rightarrow> jsstring \<Rightarrow> error + blob"
  sendBeacon_returns :: "jsstring \<Rightarrow> blob \<Rightarrow> error + bool"
  fetch_returns :: "jsstring \<Rightarrow> fetch_init \<Rightarrow> error + settlement"
  page_code :: "nat \<Rightarrow> 'd \<Rightarrow> (error + jsval) \<times> net_call list \<times> 'd"

text \<open>The event objects the browser hands to the two listeners.\<close>

record error_event =
  ev_message :: jsval
  ev_error :: jsval
  ev_filename :: jsval
  ev_lineno :: jsval
  ev_colno :: jsval

record rejection_event =
  ev_reason :: jsval

text \<open>
  A step of the script: from a state of the page to a value or an exception, and the
  state after it. \<open>returns\<close> is a step without effect, \<open>then_do\<close> runs a second step
  on the value of a first one and stops at an exception.
\<close>

type_synonym ('a, 'd) script = "'d browser \<Rightarrow> (error + 'a) \<times> 'd browser"

definition returns :: "'a \<Rightarrow> ('a, 'd) script" where
  "returns x w = (Inr x, w)"

definition raises :: "error \<Rightarrow> ('a, 'd) script" where
  "raises e w = (Inl e, w)"

definition then_do :: "('a, 'd) script \<Rightarrow> ('a \<Rightarrow> ('b, 'd) script) \<Rightarrow> ('b, 'd) script" where
  "then_do m f w = (case m w of (Inl e, w') \<Rightarrow> (Inl e, w') | (Inr x, w') \<Rightarrow> f x w')"

text \<open>Running the piece of page code number \<open>n\<close>.\<close>

definition run_page :: "'d builtins \<Rightarrow> nat \<Rightarrow> (jsval, 'd) script" where
  "run_page B n w =
     (case page_code B n (document w) of
        (r, calls, d) \<Rightarrow> (r, w\<lparr>document := d, net_calls := net_calls w @ calls\<rparr>))"

text \<open>
  \<open>v.k\<close>: reading a property of \<open>undefined\<close> or \<open>null\<close> raises TypeError; a
  primitive has none of the properties this code reads (\<open>stack\<close>, \<open>message\<close>,
  \<open>extra\<close>); an object runs the getter of an accessor property and yields the value
  of a data property, or \<open>undefined\<close>.
\<close>

fun get :: "'d builtins \<Rightarrow> jsval \<Rightarrow> jsstring \<Rightarrow> (jsval, 'd) script" where
  "get B JUndefined k = raises TypeError"
| "get B JNull k = raises TypeError"
| "get B (JObj ps gs c) k =
     (case map_of gs k of
        Some g \<Rightarrow> run_page B g
      | None \<Rightarrow> returns (case map_of ps k of None \<Rightarrow> JUndefined | Some v \<Rightarrow> v))"
| "get B v k = returns JUndefined"

text \<open>\<open>v && v.k\<close>\<close>

definition guarded_get :: "'d builtins \<Rightarrow> jsval \<Rightarrow> jsstring \<Rightarrow> (jsval, 'd) script" where
  "guarded_get B v k = (if truthy v then get B v k else returns v)"

text \<open>
  \<open>String(v)\<close>. A primitive converts by the built-in rules. An object converts as
  its conversion says; what page code returns is converted in turn, and an object
  returned there raises TypeError.
\<close>

fun String_of_primitive :: "'d builtins \<Rightarrow> jsval \<Rightarrow> error + jsstring" where
  "String_of_primitive B JUndefined = Inr (ascii ''undefined'')"
| "String_of_primitive B JNull = Inr (ascii ''null'')"
| "String_of_primitive B (JBool b) = Inr (ascii (if b then ''true'' else ''false''))"
| "String_of_primitive B (JNum n) = Inr (Number_toString B n)"
| "String_of_primitive B (JStr s) = Inr s"
| "String_of_primitive B (JObj ps gs c) = Inl TypeError"

fun js_String :: "'d builtins \<Rightarrow> jsval \<Rightarrow> (jsstring, 'd) script" where
  "js_String B (JObj ps gs (Fixed r)) = (\<lambda>w. (r, w))"
| "js_String B (JObj ps gs (PageCode n)) =
     then_do (run_page B n) (\<lambda>v w. (String_of_primitive B v, w))"
| "js_String B v = (\<lambda>w. (String_of_primitive B v, w))"

section \<open>client-logger.js\<close>

definition ENDPOINT :: jsstring where
  "ENDPOINT = ascii ''/client-logs''"

definition MAX_MESSAGE_LENGTH :: nat where
  "MAX_MESSAGE_LENGTH = 500"

text \<open>The literal \<open>'\<dots>'\<close> of \<open>truncate\<close>: U+2026, one code unit.\<close>

definition ELLIPSIS :: jsstring where
  "ELLIPSIS = [0x2026]"

fun truncate :: "jsval \<Rightarrow> jsval" where
  "truncate (JStr s) =
     (if length s > MAX_MESSAGE_LENGTH then JStr (take MAX_MESSAGE_LENGTH s @ ELLIPSIS)
      else JStr s)"
| "truncate v = v"

text \<open>
  \<open>p.catch(() => {})\<close>: the promise gets a rejection handler, and the promise that
  \<open>catch\<close> returns is fulfilled whatever \<open>p\<close> does, since the handler returns
  normally.
\<close>

definition promise_catch :: "promise \<Rightarrow> promise list" where
  "promise_catch p = [p\<lparr>handled := True\<rparr>, \<lparr>outcome = Fulfilled, handled = False\<rparr>]"


text \<open>
  The body of the \<open>try\<close> block of \<open>send\<close>. A network call is entered in
  \<open>net_calls\<close> when it is made, whatever it then returns or raises.
\<close>

definition send_try :: "'d builtins \<Rightarrow> jsval \<Rightarrow> 'd browser \<Rightarrow> (error + unit) \<times> 'd browser" where
  "send_try B payload w =
     (case JSON_stringify B payload of
        Inl e \<Rightarrow> (Inl e, w)
      | Inr body \<Rightarrow>
          if has_sendBeacon B then
            (case new_Blob B [body] (ascii ''application/json'') of
               Inl e \<Rightarrow> (Inl e, w)
             | Inr bl \<Rightarrow>
                 (let w' = w\<lparr>net_calls := net_calls w @ [SendBeacon ENDPOINT bl]\<rparr>
                  in case sendBeacon_returns B ENDPOINT bl of
                       Inl e \<Rightarrow> (Inl e, w')
                     | Inr queued \<Rightarrow> (Inr (), w')))
          else
            (let init = \<lparr>init_method = ascii ''POST'',
                         init_headers = [(ascii ''Content-Type'', ascii ''application/json'')],
                         init_body = body,
                         init_keepalive = True\<rparr>;
                 w' = w\<lparr>net_calls := net_calls w @ [Fetch ENDPOINT init]\<rparr>
             in case fetch_returns B ENDPOINT init of
                  Inl e \<Rightarrow> (Inl e, w')
                | Inr s \<Rightarrow>
                    (Inr (), w'\<lparr>promises := promises w'
                                   @ promise_catch \<lparr>outcome = s, handled = False\<rparr>\<rparr>)))"

text \<open>\<open>send\<close>: the \<open>catch (err)\<close> clause is empty, so an exception ends there.\<close>

definition send :: "'d builtins \<Rightarrow> jsval \<Rightarrow> 'd browser \<Rightarrow> (error + unit) \<times> 'd browser" where
  "send B payload w =
     (case send_try B payload w of
        (Inl err, w') \<Rightarrow> (Inr (), w')
      | (Inr u, w') \<Rightarrow> (Inr u, w'))"

text \<open>
  \<open>buildPayload\<close>. The fields are computed in the order of the literal: the message,
  the three reads of the page, then \<open>stack\<close> (a guarded read of \<open>metadata.stack\<close>, a
  second read and its conversion when the first is truthy), then \<open>extra\<close> (a guarded
  read and, when it is truthy, a second read).
\<close>

definition buildPayload ::
  "'d builtins \<Rightarrow> jsval \<Rightarrow> jsval \<Rightarrow> jsval \<Rightarrow> (jsval, 'd) script" where
  "buildPayload B level message metadata w =
     (let msg = truncate (js_or message (JStr []));
          url = JStr (href w);
          ua = JStr (userAgent w);
          ts = JStr (now_iso w)
      in then_do (guarded_get B metadata (ascii ''stack'')) (\<lambda>has_stack.
         then_do (if truthy has_stack
                  then then_do (get B metadata (ascii ''stack'')) (\<lambda>s.
                       then_do (js_String B s) (\<lambda>str. returns (JStr str)))
                  else returns (JStr [])) (\<lambda>stack.
         then_do (guarded_get B metadata (ascii ''extra'')) (\<lambda>has_extra.
         then_do (if truthy has_extra then get B metadata (ascii ''extra'')
                  else returns JUndefined) (\<lambda>extra.
           returns (object_literal
             [(ascii ''level'', level),
              (ascii ''message'', msg),
              (ascii ''url'', url),
              (ascii ''ua'', ua),
              (ascii ''ts'', ts),
              (ascii ''stack'', truncate stack),
              (ascii ''extra'', extra)]))))) w)"

text \<open>The listener for \<open>error\<close>: the payload it builds, and the listener.\<close>

definition error_payload :: "'d builtins \<Rightarrow> error_event \<Rightarrow> (jsval, 'd) script" where
  "error_payload B event =
     then_do (guarded_get B (ev_error event) (ascii ''stack'')) (\<lambda>stack.
       buildPayload B (JStr (ascii ''error''))
         (js_or (ev_message event) (JStr (ascii ''Script error'')))
         (object_literal
            [(ascii ''stack'', stack),
             (ascii ''extra'', object_literal
                [(ascii ''filename'', ev_filename event),
                 (ascii ''lineno'', ev_lineno event),
                 (ascii ''colno'', ev_colno event)])]))"

definition on_error :: "'d builtins \<Rightarrow> error_event \<Rightarrow> (unit, 'd) script" where
  "on_error B event = then_do (error_payload B event) (send B)"

text \<open>
  The listener for \<open>unhandledrejection\<close>: the values of its variables \<open>message\<close>
  and \<open>stack\<close> when it calls \<open>buildPayload\<close>, the payload, and the listener.
\<close>

definition rejection_message :: "'d builtins \<Rightarrow> jsval \<Rightarrow> (jsval, 'd) script" where
  "rejection_message B reason =
     (if truthy reason then
        (if is_string reason then returns reason
         else then_do (get B reason (ascii ''message'')) (\<lambda>m.
                if truthy m then get B reason (ascii ''message'')
                else returns (JStr (ascii ''Unhandled promise rejection''))))
      else returns (JStr (ascii ''Unhandled promise rejection'')))"

definition rejection_stack :: "'d builtins \<Rightarrow> jsval \<Rightarrow> (jsval, 'd) script" where
  "rejection_stack B reason =
     (if truthy reason then
        then_do (guarded_get B reason (ascii ''stack'')) (\<lambda>s.
          if truthy s then get B reason (ascii ''stack'') else returns (JStr []))
      else returns (JStr []))"

definition rejection_payload :: "'d builtins \<Rightarrow> rejection_event \<Rightarrow> (jsval, 'd) script" where
  "rejection_payload B event =
     then_do (rejection_message B (ev_reason event)) (\<lambda>message.
     then_do (rejection_stack B (ev_reason event)) (\<lambda>stack.
       buildPayload B (JStr (ascii ''error'')) message
         (object_literal [(ascii ''stack'', stack)])))"

definition on_unhandledrejection :: "'d builtins \<Rightarrow> rejection_event \<Rightarrow> (unit, 'd) script" where
  "on_unhandledrejection B event = then_do (rejection_payload B event) (send B)"

section \<open>Reading payloads\<close>

text \<open>The number of places of a text where a pattern starts.\<close>

fun occurrences :: "'a list \<Rightarrow> 'a list \<Rightarrow> nat" where
  "occurrences p [] = (if p = [] then 1 else 0)"
| "occurrences p (x # xs) = (if prefix p (x # xs) then 1 else 0) + occurrences p xs"

text \<open>
  The data property \<open>k\<close> of a value, \<open>undefined\<close> where there is none; and whether
  \<open>k\<close> is an accessor of the value, or the value an object that page code converts.
\<close>

fun field :: "jsval \<Rightarrow> jsstring \<Rightarrow> jsval" where
  "field (JObj ps gs c) k = (case map_of ps k of None \<Rightarrow> JUndefined | Some v \<Rightarrow> v)"
| "field v k = JUndefined"

fun is_accessor :: "jsval \<Rightarrow> jsstring \<Rightarrow> bool" where
  "is_accessor (JObj ps gs c) k = (map_of gs k \<noteq> None)"
| "is_accessor v k = False"

fun by_page :: "jsval \<Rightarrow> bool" where
  "by_page (JObj ps gs (PageCode n)) = True"
| "by_page v = False"

text \<open>\<open>Object.keys(v)\<close> for an object without accessors.\<close>

fun keys_of :: "jsval \<Rightarrow> jsstring list" where
  "keys_of (JObj ps gs c) = map fst ps"
| "keys_of v = []"

text \<open>The value a step gave, \<open>undefined\<close> when it raised.\<close>

fun value_of :: "(error + jsval) \<times> 'w \<Rightarrow> jsval" where
  "value_of (Inr v, w) = v"
| "value_of (Inl e, w) = JUndefined"

text \<open>
  What a first read of \<open>v.k\<close> in the state \<open>w\<close> gives, and what a second read
  gives right after it. The two are the data property when \<open>k\<close> is no accessor.
\<close>

definition first_read :: "'d builtins \<Rightarrow> jsval \<Rightarrow> jsstring \<Rightarrow> 'd browser \<Rightarrow> jsval" where
  "first_read B v k w = value_of (get B v k w)"

definition second_read :: "'d builtins \<Rightarrow> jsval \<Rightarrow> jsstring \<Rightarrow> 'd browser \<Rightarrow> jsval" where
  "second_read B v k w = value_of (get B v k (snd (get B v k w)))"

text \<open>
  What a builder returned, read without naming the payload: the property \<open>k\<close> of the
  payload, or its keys, or the exception when the builder raised.
\<close>

definition payload_field :: "(error + jsval) \<times> 'w \<Rightarrow> jsstring \<Rightarrow> error + jsval" where
  "payload_field r k = and_then (fst r) (\<lambda>p. Inr (field p k))"

definition payload_keys :: "(error + jsval) \<times> 'w \<Rightarrow> error + jsstring list" where
  "payload_keys r = and_then (fst r) (\<lambda>p. Inr (keys_of p))"


text \<open>
  A property of the page state that a step does not break, and one that no piece of
  page code breaks.
\<close>

definition keeps :: "('d browser \<Rightarrow> bool) \<Rightarrow> ('a, 'd) script \<Rightarrow> bool" where
  "keeps I m = (\<forall>w. I w \<longrightarrow> I (snd (m w)))"

definition page_keeps :: "'d builtins \<Rightarrow> ('d browser \<Rightarrow> bool) \<Rightarrow> bool" where
  "page_keeps B I = (\<forall>n. keeps I (run_page B n))"

text \<open>\<open>String(v)\<close> for a value that no page code converts.\<close>

fun fixed_String :: "'d builtins \<Rightarrow> jsval \<Rightarrow> error + jsstring" where
  "fixed_String B (JObj ps gs (Fixed r)) = r"
| "fixed_String B v = String_of_primitive B v"

text \<open>The object literal of \<open>buildPayload\<close>, for stating what the function returns.\<close>

definition payload_literal ::
  "jsval \<Rightarrow> jsval \<Rightarrow> 'd browser \<Rightarrow> jsval \<Rightarrow> jsval \<Rightarrow> jsval" where
  "payload_literal level msg w stack extra =
     object_literal
       [(ascii ''level'', level),
        (ascii ''message'', msg),
        (ascii ''url'', JStr (href w)),
        (ascii ''ua'', JStr (userAgent w)),
        (ascii ''ts'', JStr (now_iso w)),
        (ascii ''stack'', stack),
        (ascii ''extra'', extra)]"

text \<open>
  Browsers for the closed examples. In the first \<open>sendBeacon\<close> exists, every
  built-in succeeds, the page is \<open>https://example.org/\<close> and its code does nothing.
  The second has no \<open>sendBeacon\<close>, and a \<open>fetch\<close> whose promise rejects. In the
  third \<open>JSON.stringify\<close> raises, as it does on a cyclic payload. In the fourth the
  page's code calls \<open>fetch\<close> before it returns a text.
\<close>

fun sample_number :: "jsnum \<Rightarrow> jsstring" where
  "sample_number NaN = ascii ''NaN''"
| "sample_number PosInf = ascii ''Infinity''"
| "sample_number NegInf = ascii ''-Infinity''"
| "sample_number (Fin q) = ascii ''0''"

fun sample_stringify :: "jsval \<Rightarrow> error + jsval" where
  "sample_stringify JUndefined = Inr JUndefined"
| "sample_stringify v = Inr (JStr (ascii ''{}''))"

definition sample_builtins :: "unit builtins" where
  "sample_builtins =
     \<lparr>Number_toString = sample_number,
      JSON_stringify = sample_stringify,
      has_sendBeacon = True,
      new_Blob = (\<lambda>ps t. Inr \<lparr>parts = ps, blob_type = t\<rparr>),
      sendBeacon_returns = (\<lambda>u b. Inr True),
      fetch_returns = (\<lambda>u i. Inr Fulfilled),
      page_code = (\<lambda>n d. (Inr JUndefined, [], d))\<rparr>"



definition page_fetch :: net_call where
  "page_fetch =
     Fetch (ascii ''/track'')
       \<lparr>init_method = ascii ''GET'', init_headers = [], init_body = JUndefined,
        init_keepalive = False\<rparr>"

definition sample_builtins_calling :: "unit builtins" where
  "sample_builtins_calling =
     sample_builtins\<lparr>page_code := (\<lambda>n d. (Inr (JStr (ascii ''Error: boom'')), [page_fetch], d))\<rparr>"

definition sample_browser :: "unit browser" where
  "sample_browser =
     \<lparr>href = ascii ''https://example.org/'',
      userAgent = ascii ''Mozilla/5.0'',
      now_iso = ascii ''2024-01-01T00:00:00.000Z'',
      document = (),
      net_calls = [],
      promises = []\<rparr>"

text \<open>
  Values for the closed examples: an error event as the browser reports a
  ReferenceError, an error event without a message, a rejection reason with a short
  and one with a 501-letter message, an object that cannot be converted to a string
  (as \<open>Object.create(null)\<close>), an object whose \<open>toString\<close> is the page's, a rejection
  reason whose \<open>message\<close> is a getter of the page's, and a page that has sent a
  report already.
\<close>

definition sample_error_event :: error_event where
  "sample_error_event =
     \<lparr>ev_message = JStr (ascii ''x is not defined''),
      ev_error = object_literal
        [(ascii ''message'', JStr (ascii ''x is not defined'')),
         (ascii ''stack'', JStr (ascii ''ReferenceError: x is not defined''))],
      ev_filename = JStr (ascii ''https://example.org/app.js''),
      ev_lineno = JNum (Fin 12),
      ev_colno = JNum (Fin 5)\<rparr>"

definition silent_error_event :: error_event where
  "silent_error_event =
     \<lparr>ev_message = JStr [], ev_error = JNull, ev_filename = JStr [],
      ev_lineno = JNum (Fin 0), ev_colno = JNum (Fin 0)\<rparr>"

definition boom_reason :: jsval where
  "boom_reason = object_literal [(ascii ''message'', JStr (ascii ''boom''))]"

definition long_reason :: jsval where
  "long_reason = object_literal [(ascii ''message'', JStr (replicate 501 0x61))]"

definition unprintable :: jsval where
  "unprintable = JObj [] [] (Fixed (Inl TypeError))"

definition page_printed :: jsval where
  "page_printed = JObj [] [] (PageCode 0)"

definition getter_reason :: jsval where
  "getter_reason =
     JObj [] [(ascii ''message'', 0)] (Fixed (Inr (ascii ''[object Object]'')))"

definition busy_browser :: "unit browser" where
  "busy_browser =
     sample_browser
       \<lparr>net_calls := [SendBeacon ENDPOINT \<lparr>parts = [JStr (ascii ''{}'')],
                                            blob_type = ascii ''application/json''\<rparr>]\<rparr>"

section \<open>The rate limiter of the ingestion endpoint\<close>

text \<open>
  Modelled from the spec: the server's rate limiter is not among the sources (only
  its configuration is described, in OBSERVABILITY.md). The spec keeps, per source
  identifier, the timestamps of the events accepted within the window; a source without
  a bucket has no recent activity.
\<close>

type_synonym 'k buckets = "'k \<Rightarrow> int list option"

definition retained :: "'k buckets \<Rightarrow> 'k \<Rightarrow> int list" where
  "retained st sourceId = (case st sourceId of None \<Rightarrow> [] | Some ts \<Rightarrow> ts)"

text \<open>
  Modelled from the spec: "timestamps for sourceId older than now - windowSize are
  discarded".
\<close>

definition within_window :: "int \<Rightarrow> int \<Rightarrow> int list \<Rightarrow> int list" where
  "within_window windowSize now ts = filter (\<lambda>t. \<not> t < now - windowSize) ts"

text \<open>
  Modelled from the spec: a bucket left without timestamps is purged on access
  ("keys idle for more than one window must be purged, either opportunistically (on
  access) or via a periodic sweep").
\<close>

definition store :: "'k buckets \<Rightarrow> 'k \<Rightarrow> int list \<Rightarrow> 'k buckets" where
  "store st sourceId ts = (if ts = [] then st(sourceId := None) else st(sourceId \<mapsto> ts))"

text \<open>
  Modelled from the spec: \<open>admit(sourceId, now)\<close>. "If the remaining count is
  < limit, the new timestamp is recorded and the call returns admit=true; otherwise
  admit=false and the event is dropped without being recorded."
\<close>

definition admit :: "nat \<Rightarrow> int \<Rightarrow> 'k buckets \<Rightarrow> 'k \<Rightarrow> int \<Rightarrow> bool \<times> 'k buckets" where
  "admit limit windowSize st sourceId now =
     (let kept = within_window windowSize now (retained st sourceId)
      in if length kept < limit then (True, store st sourceId (kept @ [now]))
         else (False, store st sourceId kept))"

text \<open>
  Modelled from the spec: the periodic sweep, which purges every bucket at once.
\<close>

definition sweep :: "int \<Rightarrow> 'k buckets \<Rightarrow> int \<Rightarrow> 'k buckets" where
  "sweep windowSize st now =
     (\<lambda>k. case st k of
             None \<Rightarrow> None
           | Some ts \<Rightarrow>
               (let kept = within_window windowSize now ts
                in if kept = [] then None else Some kept))"

text \<open>
  The calls of one source, one after the other: the answers and the last state.
\<close>

fun admit_all :: "nat \<Rightarrow> int \<Rightarrow> 'k buckets \<Rightarrow> 'k \<Rightarrow> int list \<Rightarrow> bool list \<times> 'k buckets" where
  "admit_all limit windowSize st sourceId [] = ([], st)"
| "admit_all limit windowSize st sourceId (now # later) =
     (case admit limit windowSize st sourceId now of
        (r, st') \<Rightarrow>
          (case admit_all limit windowSize st' sourceId later of
             (rs, st'') \<Rightarrow> (r # rs, st'')))"

text \<open>
  What the limiter is asked to do over its life, starting with no bucket at all: the
  states \<open>serve_all\<close> reaches are the states the limiter can be in.
\<close>

datatype 'k request = Admit 'k int | Sweep int

fun serve :: "nat \<Rightarrow> int \<Rightarrow> 'k buckets \<Rightarrow> 'k request \<Rightarrow> 'k buckets" where
  "serve limit windowSize st (Admit sourceId now) = snd (admit limit windowSize st sourceId now)"
| "serve limit windowSize st (Sweep now) = sweep windowSize st now"

definition serve_all :: "nat \<Rightarrow> int \<Rightarrow> 'k request list \<Rightarrow> 'k buckets" where
  "serve_all limit windowSize reqs = foldl (serve limit windowSize) Map.empty reqs"

text \<open>
  Timestamps that fall within one sliding window: none is older than another one
  minus the window size, so no call at one of them discards another of them.
\<close>

definition one_window :: "int \<Rightarrow> int list \<Rightarrow> bool" where
  "one_window windowSize stamps = (\<forall>t \<in> set stamps. \<forall>t' \<in> set stamps. \<not> t < t' - windowSize)"

section \<open>The redactor\<close>

text \<open>
  Modelled from the spec: the redactor is not among the sources. Structured payloads
  are nested mappings and sequences over scalars; a mapping keeps the order of its keys.
\<close>

datatype structured =
    SNull
  | SBool bool
  | SNum int
  | SText string
  | SSeq "structured list"
  | SMap "(string \<times> structured) list"

text \<open>
  Modelled from the spec: the fixed redaction marker; OBSERVABILITY.md gives its text,
  \<open>[REDACTED]\<close>, and the default list of sensitive field names.
\<close>

definition REDACTED :: structured where
  "REDACTED = SText ''[REDACTED]''"

definition SENSITIVE_FIELDS :: "string list" where
  "SENSITIVE_FIELDS = [''password'', ''token'', ''email'', ''phone'']"

text \<open>
  Modelled from the spec: field names are compared case-insensitively (here on the
  letters A to Z).
\<close>

definition lower_char :: "char \<Rightarrow> char" where
  "lower_char c =
     (let n = (of_char c :: nat) in if 65 \<le> n \<and> n \<le> 90 then char_of (n + 32) else c)"

definition is_sensitive :: "string list \<Rightarrow> string \<Rightarrow> bool" where
  "is_sensitive sensitiveFields name =
     (map lower_char name \<in> set (map (map lower_char) sensitiveFields))"

text \<open>
  Modelled from the spec: \<open>redact(value, sensitiveFields)\<close>, with the depth cap as its
  first argument: the number of nested levels (mappings or sequences) that are scanned.
  "For every mapping key whose name belongs to sensitiveFields, replace its value with a
  fixed redaction marker regardless of value type"; "sequence elements are recursed into
  but not keyed"; material past the cap is "left un-recursed (but still passed through,
  not dropped)".
\<close>

fun redact :: "nat \<Rightarrow> string list \<Rightarrow> structured \<Rightarrow> structured" where
  "redact 0 sensitiveFields v = v"
| "redact (Suc depth) sensitiveFields (SMap kvs) =
     SMap (map (\<lambda>(k, v). (k, if is_sensitive sensitiveFields k then REDACTED
                               else redact depth sensitiveFields v)) kvs)"
| "redact (Suc depth) sensitiveFields (SSeq vs) = SSeq (map (redact depth sensitiveFields) vs)"
| "redact (Suc depth) sensitiveFields v = v"





text \<open>
  What a serialised payload shows: its keys and its scalars, in order. \<open>atoms\<close> are
  all of them; \<open>outside\<close> are those that do not stand under a sensitive key, which
  are the keys and scalars a redactor may let through.
\<close>

fun atoms :: "structured \<Rightarrow> structured list" where
  "atoms (SSeq vs) = concat (map atoms vs)"
| "atoms (SMap kvs) = concat (map (\<lambda>(k, v). SText k # atoms v) kvs)"
| "atoms v = [v]"




text \<open>
  A value wrapped in \<open>n\<close> mappings, and payloads for the closed examples.
\<close>

fun nest :: "nat \<Rightarrow> structured \<Rightarrow> structured" where
  "nest 0 v = v"
| "nest (Suc n) v = SMap [(''context'', nest n v)]"



section \<open>Properties of truncate\<close>

lemma occurrences_single: "occurrences [m] xs = count_list xs m"
  by (induction xs) auto

lemma occurrences_replicate: "occurrences [m] (replicate n m) = n"
  by (induction n) auto

text \<open>
  C10. \<open>truncate\<close> returns its argument unchanged when the argument is not a string,
  and when it is a string of at most 500 code units.
\<close>

theorem truncate_identity:
  "(\<not> is_string v \<longrightarrow> truncate v = v) \<and> (length s \<le> 500 \<longrightarrow> truncate (JStr s) = JStr s)"
  by (cases v) (simp_all add: MAX_MESSAGE_LENGTH_def)

theorem truncate_identity_witness:
  "\<not> is_string (JNum (Fin 42)) \<and> truncate (JNum (Fin 42)) = JNum (Fin 42)
   \<and> length (ascii ''Script error'') \<le> 500
   \<and> truncate (JStr (ascii ''Script error'')) = JStr (ascii ''Script error'')"
  using truncate_identity [of "JNum (Fin 42)" "ascii ''Script error''"]
  by (simp add: ascii_def)

text \<open>
  C1, as the code has it. For a string of more than 500 code units, \<open>truncate\<close> gives
  the first 500 code units followed by one ellipsis: the length is 500 plus the length
  of the marker, the result ends with the marker, and the marker occurs once more than
  it does in those 500 code units, so exactly once when the text cut has none.
\<close>

theorem truncate_long:
  assumes "length s > 500"
  shows "truncate (JStr s) = JStr (take 500 s @ ELLIPSIS)
     \<and> length (take 500 s @ ELLIPSIS) = 500 + length ELLIPSIS
     \<and> suffix ELLIPSIS (take 500 s @ ELLIPSIS)
     \<and> occurrences ELLIPSIS (take 500 s @ ELLIPSIS) = occurrences ELLIPSIS (take 500 s) + 1
     \<and> (set ELLIPSIS \<inter> set (take 500 s) = {}
          \<longrightarrow> occurrences ELLIPSIS (take 500 s @ ELLIPSIS) = 1)"
  using assms by (simp add: MAX_MESSAGE_LENGTH_def ELLIPSIS_def occurrences_single)

theorem truncate_long_witness:
  "length (replicate 600 (0x78 :: 16 word)) > 500
   \<and> truncate (JStr (replicate 600 0x78)) = JStr (replicate 500 0x78 @ [0x2026])
   \<and> occurrences ELLIPSIS (replicate 500 0x78 @ [0x2026]) = 1"
  using truncate_long [of "replicate 600 0x78"] by (simp add: ELLIPSIS_def)

text \<open>
  C1 as stated fails on a text that holds the ellipsis already: cutting 501 ellipses
  leaves 501 of them, not one.
\<close>

theorem truncate_marker_counterexample:
  "length (replicate 501 (0x2026 :: 16 word)) > 500
   \<and> truncate (JStr (replicate 501 0x2026)) = JStr (replicate 501 0x2026)
   \<and> occurrences ELLIPSIS (replicate 501 0x2026) \<noteq> 1"
  by (simp add: MAX_MESSAGE_LENGTH_def ELLIPSIS_def occurrences_replicate
      replicate_append_same flip: replicate_Suc)

section \<open>Steps and the page state\<close>

lemma keeps_returns: "keeps I (returns x)"
  by (simp add: keeps_def returns_def)

lemma keeps_raises: "keeps I (raises e)"
  by (simp add: keeps_def raises_def)

lemma keeps_const: "keeps I (\<lambda>w. (r, w))"
  by (simp add: keeps_def)

lemma keeps_then_do:
  assumes "keeps I m" and "\<And>x. keeps I (f x)"
  shows "keeps I (then_do m f)"
  unfolding keeps_def
proof (intro allI impI)
  fix w assume "I w"
  with assms(1) have 1: "I (snd (m w))" by (simp add: keeps_def)
  show "I (snd (then_do m f w))"
  proof (cases "m w")
    case (Pair r w')
    with 1 have w': "I w'" by simp
    show ?thesis
    proof (cases r)
      case (Inl e)
      with Pair w' show ?thesis by (simp add: then_do_def)
    next
      case (Inr x)
      from assms(2) [of x] w' have "I (snd (f x w'))" by (simp add: keeps_def)
      with Pair Inr show ?thesis by (simp add: then_do_def)
    qed
  qed
qed

lemma keeps_if: "keeps I m \<Longrightarrow> keeps I m' \<Longrightarrow> keeps I (if c then m else m')"
  by simp

lemma keeps_get: "page_keeps B I \<Longrightarrow> keeps I (get B v k)"
  by (cases v) (auto simp: page_keeps_def keeps_returns keeps_raises split: option.splits)

lemma keeps_guarded_get: "page_keeps B I \<Longrightarrow> keeps I (guarded_get B v k)"
  by (simp add: guarded_get_def keeps_get keeps_returns)

lemma keeps_js_String: "page_keeps B I \<Longrightarrow> keeps I (js_String B v)"
proof (cases v)
  case (JObj ps gs c)
  assume p: "page_keeps B I"
  show ?thesis
  proof (cases c)
    case (Fixed r)
    then show ?thesis by (simp add: JObj keeps_const)
  next
    case (PageCode n)
    from p have "keeps I (run_page B n)" by (simp add: page_keeps_def)
    then show ?thesis
      by (simp add: JObj PageCode keeps_then_do keeps_const)
  qed
qed (simp_all add: keeps_const)

lemma keeps_buildPayload:
  assumes "page_keeps B I"
  shows "keeps I (buildPayload B level message metadata)"
proof -
  have "keeps I (\<lambda>w. buildPayload B level message metadata w)"
    unfolding buildPayload_def Let_def keeps_def
  proof (intro allI impI)
    fix w assume w: "I w"
    let ?m = "then_do (guarded_get B metadata (ascii ''stack'')) (\<lambda>has_stack.
         then_do (if truthy has_stack
                  then then_do (get B metadata (ascii ''stack'')) (\<lambda>s.
                       then_do (js_String B s) (\<lambda>str. returns (JStr str)))
                  else returns (JStr [])) (\<lambda>stack.
         then_do (guarded_get B metadata (ascii ''extra'')) (\<lambda>has_extra.
         then_do (if truthy has_extra then get B metadata (ascii ''extra'')
                  else returns JUndefined) (\<lambda>extra.
           returns (object_literal
             [(ascii ''level'', level),
              (ascii ''message'', truncate (js_or message (JStr []))),
              (ascii ''url'', JStr (href w)),
              (ascii ''ua'', JStr (userAgent w)),
              (ascii ''ts'', JStr (now_iso w)),
              (ascii ''stack'', truncate stack),
              (ascii ''extra'', extra)])))))"
    have "keeps I ?m"
      by (intro keeps_then_do keeps_if keeps_guarded_get keeps_get keeps_js_String keeps_returns
          assms)
    with w show "I (snd (?m w))" by (simp add: keeps_def)
  qed
  then show ?thesis .
qed

lemma keeps_error_payload: "page_keeps B I \<Longrightarrow> keeps I (error_payload B ev)"
  unfolding error_payload_def
  by (intro keeps_then_do keeps_guarded_get keeps_buildPayload)

lemma keeps_rejection_message: "page_keeps B I \<Longrightarrow> keeps I (rejection_message B reason)"
  unfolding rejection_message_def
  by (intro keeps_then_do keeps_if keeps_get keeps_returns)

lemma keeps_rejection_stack: "page_keeps B I \<Longrightarrow> keeps I (rejection_stack B reason)"
  unfolding rejection_stack_def
  by (intro keeps_then_do keeps_if keeps_guarded_get keeps_get keeps_returns)

lemma keeps_rejection_payload: "page_keeps B I \<Longrightarrow> keeps I (rejection_payload B rv)"
  unfolding rejection_payload_def
  by (intro keeps_then_do keeps_rejection_message keeps_rejection_stack keeps_buildPayload)

lemma page_keeps_reads:
  "page_keeps B (\<lambda>v. href v = h \<and> userAgent v = u \<and> now_iso v = t)"
  by (simp add: page_keeps_def keeps_def run_page_def split: prod.splits)

lemma keeps_reads:
  assumes "keeps (\<lambda>v. href v = href w \<and> userAgent v = userAgent w \<and> now_iso v = now_iso w) m"
    and "m w = (r, w')"
  shows "href w' = href w" and "userAgent w' = userAgent w" and "now_iso w' = now_iso w"
  using assms by (auto simp: keeps_def dest!: spec [of _ w])

lemma then_do_built:
  assumes "\<not> isl (fst (then_do m f w))"
  obtains x w' where "m w = (Inr x, w')" and "then_do m f w = f x w'"
proof (cases "m w")
  case (Pair r w')
  show ?thesis
  proof (cases r)
    case (Inl e)
    with Pair assms show ?thesis by (simp add: then_do_def)
  next
    case (Inr x)
    with Pair that show ?thesis by (simp add: then_do_def)
  qed
qed

section \<open>Properties of buildPayload and the listeners\<close>

lemma get_data:
  "\<not> is_accessor v k \<Longrightarrow> truthy v \<Longrightarrow> get B v k w = (Inr (field v k), w)"
  by (cases v) (auto simp: returns_def split: option.splits)

lemma field_falsy: "\<not> truthy v \<Longrightarrow> field v k = JUndefined"
  by (cases v) simp_all

lemma guarded_get_data:
  "\<not> is_accessor v k \<Longrightarrow>
   guarded_get B v k w = (Inr (if truthy v then field v k else v), w)"
  by (simp add: guarded_get_def get_data returns_def)

lemma not_accessor_literal: "\<not> is_accessor (object_literal ps) k"
  by (simp add: object_literal_def)

lemma truthy_object_literal: "truthy (object_literal ps)"
  by (simp add: object_literal_def)

lemma js_String_fixed: "\<not> by_page v \<Longrightarrow> js_String B v w = (fixed_String B v, w)"
proof (cases v)
  case (JObj ps gs c)
  assume "\<not> by_page v"
  with JObj show ?thesis by (cases c) simp_all
qed simp_all

lemma js_String_cases:
  "(\<exists>e w'. js_String B v w = (Inl e, w')) \<or> (\<exists>s w'. js_String B v w = (Inr s, w'))"
  by (cases "js_String B v w") (metis sum.exhaust)

lemma buildPayload_data:
  assumes "\<not> is_accessor metadata (ascii ''stack'')"
    and "\<not> is_accessor metadata (ascii ''extra'')"
  shows "buildPayload B level message metadata w =
     (if truthy (field metadata (ascii ''stack''))
      then then_do (js_String B (field metadata (ascii ''stack''))) (\<lambda>str.
             returns (payload_literal level (truncate (js_or message (JStr []))) w
                        (truncate (JStr str))
                        (if truthy (field metadata (ascii ''extra''))
                         then field metadata (ascii ''extra'') else JUndefined))) w
      else (Inr (payload_literal level (truncate (js_or message (JStr []))) w (JStr [])
                   (if truthy (field metadata (ascii ''extra''))
                    then field metadata (ascii ''extra'') else JUndefined)), w))"
proof (cases "truthy metadata")
  case True
  have g: "get B metadata k = returns (field metadata k)" if "\<not> is_accessor metadata k" for k
    using get_data [OF that True, of B] by (auto simp: returns_def)
  have gg: "guarded_get B metadata k = returns (field metadata k)"
    if "\<not> is_accessor metadata k" for k
    using g [OF that] True by (simp add: guarded_get_def)
  show ?thesis
    unfolding buildPayload_def Let_def g [OF assms(1)] g [OF assms(2)] gg [OF assms(1)]
      gg [OF assms(2)] payload_literal_def
    by (cases "js_String B (field metadata (ascii ''stack'')) w")
       (auto simp: then_do_def returns_def MAX_MESSAGE_LENGTH_def split: sum.splits)
next
  case False
  have gg: "guarded_get B metadata k = returns metadata" for k
    using False by (simp add: guarded_get_def)
  show ?thesis
    unfolding buildPayload_def Let_def gg payload_literal_def
    using False by (simp add: then_do_def returns_def field_falsy)
qed

lemma buildPayload_plain_state:
  assumes "\<not> is_accessor metadata (ascii ''stack'')"
    and "\<not> is_accessor metadata (ascii ''extra'')"
    and "\<not> by_page (field metadata (ascii ''stack''))"
  shows "buildPayload B level message metadata w =
     (if truthy (field metadata (ascii ''stack''))
      then (case fixed_String B (field metadata (ascii ''stack'')) of
              Inl e \<Rightarrow> Inl e
            | Inr str \<Rightarrow>
                Inr (payload_literal level (truncate (js_or message (JStr []))) w
                       (truncate (JStr str))
                       (if truthy (field metadata (ascii ''extra''))
                        then field metadata (ascii ''extra'') else JUndefined)))
      else Inr (payload_literal level (truncate (js_or message (JStr []))) w (JStr [])
                  (if truthy (field metadata (ascii ''extra''))
                   then field metadata (ascii ''extra'') else JUndefined)),
      w)"
  unfolding buildPayload_data [OF assms(1,2)]
  by (simp add: js_String_fixed [OF assms(3)] then_do_def returns_def split: sum.splits
      del: truncate.simps)

lemma field_stack_literal:
  "field (object_literal ((ascii ''stack'', a) # ps)) (ascii ''stack'') = a"
  by (simp add: object_literal_def)

lemma get_data_fun:
  "\<not> is_accessor v k \<Longrightarrow> truthy v \<Longrightarrow> get B v k = returns (field v k)"
  by (rule ext) (simp add: get_data returns_def)

lemma returns_then_do: "then_do (returns x) f = f x"
  by (rule ext) (simp add: then_do_def returns_def)

lemma payload_fields:
  fixes w' :: 'w and w :: "'d browser" and a b f g :: jsval
  defines "r \<equiv> (Inr (payload_literal a b w f g), w')"
  shows "payload_field r (ascii ''level'') = Inr a"
    and "payload_field r (ascii ''message'') = Inr b"
    and "payload_field r (ascii ''url'') = Inr (JStr (href w))"
    and "payload_field r (ascii ''ua'') = Inr (JStr (userAgent w))"
    and "payload_field r (ascii ''ts'') = Inr (JStr (now_iso w))"
    and "payload_field r (ascii ''stack'') = Inr f"
    and "payload_field r (ascii ''extra'') = Inr g"
    and "payload_field r (ascii ''userAgent'') = Inr JUndefined"
    and "payload_field r (ascii ''timestamp'') = Inr JUndefined"
    and "payload_keys r =
           Inr (map ascii [''level'', ''message'', ''url'', ''ua'', ''ts'', ''stack'', ''extra''])"
  by (simp_all add: r_def payload_literal_def payload_field_def payload_keys_def and_then_def
      object_literal_def ascii_def)

lemma buildPayload_built:
  assumes "\<not> is_accessor metadata (ascii ''stack'')"
    and "\<not> is_accessor metadata (ascii ''extra'')"
    and "\<not> isl (fst (buildPayload B level message metadata w))"
  obtains s w' where
    "buildPayload B level message metadata w =
       (Inr (payload_literal level (truncate (js_or message (JStr []))) w (JStr s)
               (if truthy (field metadata (ascii ''extra''))
                then field metadata (ascii ''extra'') else JUndefined)), w')"
proof (cases "truthy (field metadata (ascii ''stack''))")
  case False
  with buildPayload_data [OF assms(1,2), of B level message w] that show ?thesis
    by simp
next
  case True
  note bp = buildPayload_data [OF assms(1,2), of B level message w]
  from js_String_cases [of B "field metadata (ascii ''stack'')" w]
  show ?thesis
  proof (elim disjE exE)
    fix e w' assume "js_String B (field metadata (ascii ''stack'')) w = (Inl e, w')"
    with bp True assms(3) show ?thesis by (simp add: then_do_def)
  next
    fix str w' assume j: "js_String B (field metadata (ascii ''stack'')) w = (Inr str, w')"
    obtain s where s: "truncate (JStr str) = JStr s"
      by (cases "length str > MAX_MESSAGE_LENGTH") auto
    from bp True j s that show ?thesis
      by (simp add: then_do_def returns_def del: truncate.simps)
  qed
qed

lemma buildPayload_fields:
  assumes "\<not> is_accessor metadata (ascii ''stack'')"
    and "\<not> is_accessor metadata (ascii ''extra'')"
    and "\<not> isl (fst (buildPayload B level message metadata w))"
  defines "r \<equiv> buildPayload B level message metadata w"
  shows "payload_field r (ascii ''level'') = Inr level"
    and "payload_field r (ascii ''message'') = Inr (truncate (js_or message (JStr [])))"
    and "payload_field r (ascii ''url'') = Inr (JStr (href w))"
    and "payload_field r (ascii ''ua'') = Inr (JStr (userAgent w))"
    and "payload_field r (ascii ''ts'') = Inr (JStr (now_iso w))"
    and "\<exists>s. payload_field r (ascii ''stack'') = Inr (JStr s)"
    and "payload_field r (ascii ''extra'') =
           Inr (if truthy (field metadata (ascii ''extra''))
                then field metadata (ascii ''extra'') else JUndefined)"
    and "payload_field r (ascii ''userAgent'') = Inr JUndefined"
    and "payload_field r (ascii ''timestamp'') = Inr JUndefined"
    and "payload_keys r =
           Inr (map ascii [''level'', ''message'', ''url'', ''ua'', ''ts'', ''stack'', ''extra''])"
proof -
  from assms(1,2,3) obtain s w' where
    bp: "r = (Inr (payload_literal level (truncate (js_or message (JStr []))) w (JStr s)
               (if truthy (field metadata (ascii ''extra''))
                then field metadata (ascii ''extra'') else JUndefined)), w')"
    unfolding r_def by (rule buildPayload_built)
  show "payload_field r (ascii ''level'') = Inr level"
    and "payload_field r (ascii ''message'') = Inr (truncate (js_or message (JStr [])))"
    and "payload_field r (ascii ''url'') = Inr (JStr (href w))"
    and "payload_field r (ascii ''ua'') = Inr (JStr (userAgent w))"
    and "payload_field r (ascii ''ts'') = Inr (JStr (now_iso w))"
    and "\<exists>s. payload_field r (ascii ''stack'') = Inr (JStr s)"
    and "payload_field r (ascii ''extra'') =
           Inr (if truthy (field metadata (ascii ''extra''))
                then field metadata (ascii ''extra'') else JUndefined)"
    and "payload_field r (ascii ''userAgent'') = Inr JUndefined"
    and "payload_field r (ascii ''timestamp'') = Inr JUndefined"
    and "payload_keys r =
           Inr (map ascii [''level'', ''message'', ''url'', ''ua'', ''ts'', ''stack'', ''extra''])"
    unfolding bp by (simp_all only: payload_fields) simp
qed

lemma field_extra_literal:
  "field (object_literal [(ascii ''stack'', a), (ascii ''extra'', b)]) (ascii ''extra'') = b"
  "field (object_literal [(ascii ''stack'', a)]) (ascii ''extra'') = JUndefined"
  by (simp_all add: object_literal_def ascii_def)

lemma placeholder_short:
  "truncate (JStr (ascii ''Unhandled promise rejection'')) = JStr (ascii ''Unhandled promise rejection'')"
  "truncate (JStr (ascii ''Script error'')) = JStr (ascii ''Script error'')"
  by (simp_all add: ascii_def MAX_MESSAGE_LENGTH_def)

lemma truthy_placeholder:
  "ascii ''Unhandled promise rejection'' \<noteq> []" "ascii ''Script error'' \<noteq> []"
  by (simp_all add: ascii_def)

lemma error_payload_built:
  assumes "\<not> isl (fst (error_payload B ev w))"
  obtains st w1 where
    "error_payload B ev w =
       buildPayload B (JStr (ascii ''error''))
         (js_or (ev_message ev) (JStr (ascii ''Script error'')))
         (object_literal
            [(ascii ''stack'', st),
             (ascii ''extra'', object_literal
                [(ascii ''filename'', ev_filename ev),
                 (ascii ''lineno'', ev_lineno ev),
                 (ascii ''colno'', ev_colno ev)])]) w1"
    and "href w1 = href w" and "userAgent w1 = userAgent w" and "now_iso w1 = now_iso w"
proof -
  from assms obtain st w1 where
    g: "guarded_get B (ev_error ev) (ascii ''stack'') w = (Inr st, w1)" and
    e: "error_payload B ev w =
       buildPayload B (JStr (ascii ''error''))
         (js_or (ev_message ev) (JStr (ascii ''Script error'')))
         (object_literal
            [(ascii ''stack'', st),
             (ascii ''extra'', object_literal
                [(ascii ''filename'', ev_filename ev),
                 (ascii ''lineno'', ev_lineno ev),
                 (ascii ''colno'', ev_colno ev)])]) w1"
    unfolding error_payload_def by (rule then_do_built)
  note k = keeps_reads [OF keeps_guarded_get [OF page_keeps_reads] g]
  from e k that show ?thesis by blast
qed

lemma first_read_falsy: "\<not> truthy v \<Longrightarrow> \<not> truthy (first_read B v k w)"
  by (cases v) (simp_all add: first_read_def raises_def returns_def)

lemma reads_of_data:
  assumes "\<not> is_accessor v k" and "truthy v"
  shows "first_read B v k w = field v k" and "second_read B v k w = field v k"
  using get_data [OF assms, of B] by (simp_all add: first_read_def second_read_def)

lemma rejection_message_value:
  assumes "rejection_message B reason w = (Inr msg, w1)" and "\<not> is_string reason"
  shows "msg = (if truthy (first_read B reason (ascii ''message'') w)
                then second_read B reason (ascii ''message'') w
                else JStr (ascii ''Unhandled promise rejection''))"
proof (cases "truthy reason")
  case False
  with assms first_read_falsy [OF False, of B "ascii ''message''" w] show ?thesis
    by (simp add: rejection_message_def returns_def)
next
  case True
  obtain r wa where g: "get B reason (ascii ''message'') w = (r, wa)"
    by (cases "get B reason (ascii ''message'') w")
  show ?thesis
  proof (cases r)
    case (Inl e)
    with assms True g show ?thesis
      by (simp add: rejection_message_def then_do_def)
  next
    case (Inr m1)
    with assms True g show ?thesis
      by (auto simp: rejection_message_def then_do_def returns_def first_read_def
          second_read_def split: if_splits)
  qed
qed

lemma rejection_payload_built:
  assumes "\<not> isl (fst (rejection_payload B rv w))"
  obtains msg st w1 w2 where
    "rejection_message B (ev_reason rv) w = (Inr msg, w1)"
    and "rejection_payload B rv w =
       buildPayload B (JStr (ascii ''error'')) msg (object_literal [(ascii ''stack'', st)]) w2"
    and "href w2 = href w" and "userAgent w2 = userAgent w" and "now_iso w2 = now_iso w"
proof -
  from assms obtain msg w1 where
    m: "rejection_message B (ev_reason rv) w = (Inr msg, w1)" and
    e: "rejection_payload B rv w =
          then_do (rejection_stack B (ev_reason rv)) (\<lambda>stack.
            buildPayload B (JStr (ascii ''error'')) msg
              (object_literal [(ascii ''stack'', stack)])) w1"
    unfolding rejection_payload_def by (rule then_do_built)
  have b: "\<not> isl (fst (then_do (rejection_stack B (ev_reason rv)) (\<lambda>stack.
            buildPayload B (JStr (ascii ''error'')) msg
              (object_literal [(ascii ''stack'', stack)])) w1))"
    using assms unfolding e .
  from b obtain st w2 where
    s: "rejection_stack B (ev_reason rv) w1 = (Inr st, w2)" and
    e2: "then_do (rejection_stack B (ev_reason rv)) (\<lambda>stack.
            buildPayload B (JStr (ascii ''error'')) msg
              (object_literal [(ascii ''stack'', stack)])) w1 =
          buildPayload B (JStr (ascii ''error'')) msg (object_literal [(ascii ''stack'', st)]) w2"
    by (rule then_do_built)
  note k1 = keeps_reads [OF keeps_rejection_message [OF page_keeps_reads] m]
  note k2 = keeps_reads [OF keeps_rejection_stack [OF page_keeps_reads] s]
  have e3: "rejection_payload B rv w =
       buildPayload B (JStr (ascii ''error'')) msg (object_literal [(ascii ''stack'', st)]) w2"
    by (simp only: e e2)
  have "href w2 = href w" "userAgent w2 = userAgent w" "now_iso w2 = now_iso w"
    using k1 k2 by simp_all
  with m e3 show ?thesis by (rule that)
qed

lemma error_payload_plain_state:
  assumes "\<not> is_accessor (ev_error ev) (ascii ''stack'')"
    and "\<not> by_page (field (ev_error ev) (ascii ''stack''))"
  shows "snd (error_payload B ev w) = w"
proof -
  define st where "st = (if truthy (ev_error ev) then field (ev_error ev) (ascii ''stack'')
                         else ev_error ev)"
  define md where "md = object_literal
            [(ascii ''stack'', st),
             (ascii ''extra'', object_literal
                [(ascii ''filename'', ev_filename ev),
                 (ascii ''lineno'', ev_lineno ev),
                 (ascii ''colno'', ev_colno ev)])]"
  have e: "error_payload B ev w =
      buildPayload B (JStr (ascii ''error''))
        (js_or (ev_message ev) (JStr (ascii ''Script error''))) md w"
    by (simp add: error_payload_def then_do_def guarded_get_data [OF assms(1)] st_def md_def)
  have "\<not> by_page st"
    using assms(2) by (cases "ev_error ev") (simp_all add: st_def)
  then have p: "\<not> by_page (field md (ascii ''stack''))"
    by (simp add: md_def field_stack_literal)
  have na: "\<not> is_accessor md (ascii ''stack'')" "\<not> is_accessor md (ascii ''extra'')"
    by (simp_all add: md_def not_accessor_literal)
  show ?thesis
    unfolding e buildPayload_plain_state [OF na p] by simp
qed

lemma rejection_message_data:
  assumes "\<not> is_accessor reason (ascii ''message'')"
  shows "\<exists>msg. rejection_message B reason w = (Inr msg, w)"
proof (cases "truthy reason")
  case True
  show ?thesis
    unfolding rejection_message_def get_data_fun [OF assms True]
    using True by (simp add: returns_then_do) (simp add: returns_def)
next
  case False
  then show ?thesis by (simp add: rejection_message_def returns_def)
qed

lemma rejection_stack_data:
  assumes "\<not> is_accessor reason (ascii ''stack'')"
  shows "rejection_stack B reason w =
     (Inr (if truthy (field reason (ascii ''stack'')) then field reason (ascii ''stack'')
           else JStr []), w)"
proof (cases "truthy reason")
  case True
  show ?thesis
    unfolding rejection_stack_def guarded_get_def get_data_fun [OF assms True]
    using True by (simp add: returns_then_do) (simp add: returns_def)
next
  case False
  then show ?thesis by (simp add: rejection_stack_def returns_def field_falsy)
qed

lemma rejection_payload_plain_state:
  assumes "\<not> is_accessor (ev_reason rv) (ascii ''message'')"
    and "\<not> is_accessor (ev_reason rv) (ascii ''stack'')"
    and "\<not> by_page (field (ev_reason rv) (ascii ''stack''))"
  shows "snd (rejection_payload B rv w) = w"
proof -
  from rejection_message_data [OF assms(1)]
  obtain msg where m: "rejection_message B (ev_reason rv) w = (Inr msg, w)"
    by blast
  define st where "st = (if truthy (field (ev_reason rv) (ascii ''stack''))
                         then field (ev_reason rv) (ascii ''stack'') else JStr [])"
  have s: "rejection_stack B (ev_reason rv) w = (Inr st, w)"
    by (simp add: rejection_stack_data [OF assms(2)] st_def)
  define md where "md = object_literal [(ascii ''stack'', st)]"
  have e: "rejection_payload B rv w = buildPayload B (JStr (ascii ''error'')) msg md w"
    by (simp add: rejection_payload_def then_do_def m s md_def)
  have "\<not> by_page st" using assms(3) by (simp add: st_def)
  then have p: "\<not> by_page (field md (ascii ''stack''))"
    by (simp add: md_def field_stack_literal)
  have na: "\<not> is_accessor md (ascii ''stack'')" "\<not> is_accessor md (ascii ''extra'')"
    by (simp_all add: md_def not_accessor_literal)
  show ?thesis
    unfolding e buildPayload_plain_state [OF na p] by simp
qed

lemmas eval_defs = error_payload_def rejection_payload_def rejection_message_def rejection_stack_def
  on_error_def buildPayload_def guarded_get_def then_do_def returns_def raises_def run_page_def
  and_then_def object_literal_def js_or_def payload_field_def payload_keys_def
  sample_builtins_def sample_builtins_calling_def sample_browser_def busy_browser_def
  sample_error_event_def silent_error_event_def boom_reason_def long_reason_def unprintable_def
  page_printed_def MAX_MESSAGE_LENGTH_def ELLIPSIS_def

text \<open>
  C7. The claim is the specification's and the code does not meet it: \<open>buildPayload\<close>
  guards against missing values but has no \<open>try\<close>, and \<open>String(metadata.stack)\<close>
  raises TypeError for an object without a string conversion, such as
  \<open>Object.create(null)\<close>. When the page throws \<open>{stack: Object.create(null)}\<close>, the
  \<open>error\<close> listener hands that stack to \<open>buildPayload\<close>: the exception leaves the
  listener, no payload is built and nothing is sent.
\<close>

theorem on_error_raises:
  "fst (buildPayload sample_builtins (JStr (ascii ''error'')) (JStr (ascii ''boom''))
          (object_literal [(ascii ''stack'', unprintable)]) sample_browser) = Inl TypeError
   \<and> on_error sample_builtins
        (sample_error_event\<lparr>ev_error := object_literal [(ascii ''stack'', unprintable)]\<rparr>)
        sample_browser = (Inl TypeError, sample_browser)"
  by (simp add: eval_defs ascii_def)

text \<open>
  C9, as the code has it. \<open>buildPayload\<close> makes no network call and changes nothing
  itself: whatever no piece of page code breaks is kept by \<open>buildPayload\<close> and by
  each listener up to its call of \<open>send\<close>, so every change during a call is made
  by code of the page that the call runs through its arguments (a getter for \<open>stack\<close>
  or \<open>extra\<close>, the \<open>toString\<close> or \<open>valueOf\<close> of an object stack). When the
  metadata has no such getter and its stack no such conversion, the state after the call
  is the state before it, and the result is the same in any two states with the same
  URL, user agent and clock: these three are all it reads of the page. The same holds
  for each listener up to its call of \<open>send\<close>, when the error thrown or the reason
  of the rejection has no getter for what the listener reads and no such stack.
\<close>

theorem buildPayload_frame:
  "(page_keeps B I \<and> I w \<longrightarrow>
      I (snd (buildPayload B level message metadata w))
    \<and> I (snd (error_payload B ev w))
    \<and> I (snd (rejection_payload B rv w)))
   \<and> (\<not> is_accessor metadata (ascii ''stack'') \<and> \<not> is_accessor metadata (ascii ''extra'')
        \<and> \<not> by_page (field metadata (ascii ''stack'')) \<longrightarrow>
      snd (buildPayload B level message metadata w) = w
    \<and> (href w' = href w \<and> userAgent w' = userAgent w \<and> now_iso w' = now_iso w \<longrightarrow>
         fst (buildPayload B level message metadata w')
           = fst (buildPayload B level message metadata w)))
   \<and> (\<not> is_accessor (ev_error ev) (ascii ''stack'')
        \<and> \<not> by_page (field (ev_error ev) (ascii ''stack'')) \<longrightarrow>
      snd (error_payload B ev w) = w)
   \<and> (\<not> is_accessor (ev_reason rv) (ascii ''message'')
        \<and> \<not> is_accessor (ev_reason rv) (ascii ''stack'')
        \<and> \<not> by_page (field (ev_reason rv) (ascii ''stack'')) \<longrightarrow>
      snd (rejection_payload B rv w) = w)"
proof -
  have inv: "I (snd (buildPayload B level message metadata w))
    \<and> I (snd (error_payload B ev w)) \<and> I (snd (rejection_payload B rv w))"
    if "page_keeps B I" "I w"
    using keeps_buildPayload [OF that(1), of level message metadata]
      keeps_error_payload [OF that(1), of ev] keeps_rejection_payload [OF that(1), of rv] that(2)
    by (simp add: keeps_def)
  have plain: "snd (buildPayload B level message metadata w) = w
    \<and> (href w' = href w \<and> userAgent w' = userAgent w \<and> now_iso w' = now_iso w \<longrightarrow>
         fst (buildPayload B level message metadata w')
           = fst (buildPayload B level message metadata w))"
    if a: "\<not> is_accessor metadata (ascii ''stack'')" "\<not> is_accessor metadata (ascii ''extra'')"
      "\<not> by_page (field metadata (ascii ''stack''))"
    unfolding buildPayload_plain_state [OF a]
    by (simp add: payload_literal_def split: sum.splits del: truncate.simps)
  from inv plain error_payload_plain_state [of ev B w] rejection_payload_plain_state [of rv B w]
  show ?thesis by blast
qed

theorem buildPayload_frame_witness:
  "net_calls sample_browser = []
   \<and> net_calls (snd (buildPayload sample_builtins (JStr (ascii ''error'')) (JStr (ascii ''boom''))
                      (object_literal [(ascii ''stack'', page_printed)]) sample_browser)) = []
   \<and> \<not> is_accessor (ev_error sample_error_event) (ascii ''stack'')
   \<and> \<not> is_accessor (ev_error sample_error_event) (ascii ''extra'')
   \<and> \<not> by_page (field (ev_error sample_error_event) (ascii ''stack''))
   \<and> snd (buildPayload sample_builtins_calling (JStr (ascii ''error'')) (JStr (ascii ''boom''))
             (ev_error sample_error_event) busy_browser) = busy_browser
   \<and> snd (error_payload sample_builtins_calling sample_error_event busy_browser) = busy_browser
   \<and> \<not> is_accessor boom_reason (ascii ''message'')
   \<and> \<not> is_accessor boom_reason (ascii ''stack'')
   \<and> \<not> by_page (field boom_reason (ascii ''stack''))
   \<and> snd (rejection_payload sample_builtins_calling \<lparr>ev_reason = boom_reason\<rparr> busy_browser)
       = busy_browser
   \<and> href sample_browser = href busy_browser
   \<and> userAgent sample_browser = userAgent busy_browser
   \<and> now_iso sample_browser = now_iso busy_browser
   \<and> fst (buildPayload sample_builtins_calling (JStr (ascii ''error'')) (JStr (ascii ''boom''))
             (ev_error sample_error_event) sample_browser)
     = fst (buildPayload sample_builtins_calling (JStr (ascii ''error'')) (JStr (ascii ''boom''))
             (ev_error sample_error_event) busy_browser)"
proof -
  have k: "page_keeps sample_builtins (\<lambda>v. net_calls v = [])"
    by (simp add: page_keeps_def keeps_def run_page_def sample_builtins_def)
  have n: "net_calls sample_browser = []"
    by (simp add: sample_browser_def)
  have p: "\<not> is_accessor (ev_error sample_error_event) (ascii ''stack'')"
    "\<not> is_accessor (ev_error sample_error_event) (ascii ''extra'')"
    "\<not> by_page (field (ev_error sample_error_event) (ascii ''stack''))"
    by (simp_all add: sample_error_event_def object_literal_def ascii_def)
  have r: "href sample_browser = href busy_browser"
    "userAgent sample_browser = userAgent busy_browser"
    "now_iso sample_browser = now_iso busy_browser"
    by (simp_all add: busy_browser_def)
  from buildPayload_frame [of sample_builtins "\<lambda>v. net_calls v = []" sample_browser
      "JStr (ascii ''error'')" "JStr (ascii ''boom'')"
      "object_literal [(ascii ''stack'', page_printed)]"] k n
  have 1: "net_calls (snd (buildPayload sample_builtins (JStr (ascii ''error''))
      (JStr (ascii ''boom'')) (object_literal [(ascii ''stack'', page_printed)]) sample_browser)) = []"
    by blast
  have q: "\<not> is_accessor boom_reason (ascii ''message'')"
    "\<not> is_accessor boom_reason (ascii ''stack'')"
    "\<not> by_page (field boom_reason (ascii ''stack''))"
    by (simp_all add: boom_reason_def object_literal_def ascii_def)
  from buildPayload_frame [of sample_builtins_calling _ busy_browser _ _ _ sample_error_event
      "\<lparr>ev_reason = boom_reason\<rparr>"] p q
  have 4: "snd (error_payload sample_builtins_calling sample_error_event busy_browser) = busy_browser"
    and 5: "snd (rejection_payload sample_builtins_calling \<lparr>ev_reason = boom_reason\<rparr> busy_browser)
       = busy_browser"
    by simp_all
  from buildPayload_frame [of sample_builtins_calling _ busy_browser
      "JStr (ascii ''error'')" "JStr (ascii ''boom'')" "ev_error sample_error_event" _ _
      sample_browser] p r
  have 2: "snd (buildPayload sample_builtins_calling (JStr (ascii ''error'')) (JStr (ascii ''boom''))
             (ev_error sample_error_event) busy_browser) = busy_browser"
    and 3: "fst (buildPayload sample_builtins_calling (JStr (ascii ''error''))
             (JStr (ascii ''boom'')) (ev_error sample_error_event) sample_browser)
     = fst (buildPayload sample_builtins_calling (JStr (ascii ''error'')) (JStr (ascii ''boom''))
             (ev_error sample_error_event) busy_browser)"
    by blast+
  from n 1 p 2 r 3 4 5 q show ?thesis by blast
qed

text \<open>
  C9 as stated fails for an input that carries code: when the page throws an object
  whose stack has a \<open>toString\<close> that calls \<open>fetch\<close>, the conversion in
  \<open>buildPayload\<close> runs it, and a network call is made before \<open>send\<close> is reached.
\<close>

theorem buildPayload_page_code_counterexample:
  "net_calls sample_browser = []
   \<and> net_calls (snd (buildPayload sample_builtins_calling (JStr (ascii ''error''))
                      (JStr (ascii ''boom''))
                      (object_literal [(ascii ''stack'', page_printed)]) sample_browser))
       = [page_fetch]
   \<and> net_calls (snd (error_payload sample_builtins_calling
                      (sample_error_event\<lparr>ev_error :=
                         object_literal [(ascii ''stack'', page_printed)]\<rparr>) sample_browser))
       = [page_fetch]"
  by (simp add: eval_defs ascii_def)

text \<open>
  C4, as the code has it. Every payload a listener builds has the keys \<open>level\<close>,
  \<open>message\<close>, \<open>url\<close>, \<open>ua\<close>, \<open>ts\<close>, \<open>stack\<close>, \<open>extra\<close>, in this order, with
  \<open>level\<close> the string \<open>error\<close>, \<open>url\<close> and \<open>ua\<close> the page's URL and user agent,
  \<open>ts\<close> the text \<open>new Date().toISOString()\<close> returns, \<open>stack\<close> a string, and
  \<open>extra\<close> the mapping of filename, line and column for an error event and
  \<open>undefined\<close> for a rejection.
\<close>

theorem payload_shape:
  "(\<not> isl (fst (error_payload B ev w)) \<longrightarrow>
      payload_keys (error_payload B ev w) =
        Inr (map ascii [''level'', ''message'', ''url'', ''ua'', ''ts'', ''stack'', ''extra''])
    \<and> payload_field (error_payload B ev w) (ascii ''level'') = Inr (JStr (ascii ''error''))
    \<and> payload_field (error_payload B ev w) (ascii ''url'') = Inr (JStr (href w))
    \<and> payload_field (error_payload B ev w) (ascii ''ua'') = Inr (JStr (userAgent w))
    \<and> payload_field (error_payload B ev w) (ascii ''ts'') = Inr (JStr (now_iso w))
    \<and> (case payload_field (error_payload B ev w) (ascii ''stack'') of
          Inl e \<Rightarrow> False | Inr v \<Rightarrow> is_string v)
    \<and> payload_field (error_payload B ev w) (ascii ''extra'') =
        Inr (object_literal
               [(ascii ''filename'', ev_filename ev),
                (ascii ''lineno'', ev_lineno ev),
                (ascii ''colno'', ev_colno ev)]))
   \<and> (\<not> isl (fst (rejection_payload B rv w)) \<longrightarrow>
      payload_keys (rejection_payload B rv w) =
        Inr (map ascii [''level'', ''message'', ''url'', ''ua'', ''ts'', ''stack'', ''extra''])
    \<and> payload_field (rejection_payload B rv w) (ascii ''level'') = Inr (JStr (ascii ''error''))
    \<and> payload_field (rejection_payload B rv w) (ascii ''url'') = Inr (JStr (href w))
    \<and> payload_field (rejection_payload B rv w) (ascii ''ua'') = Inr (JStr (userAgent w))
    \<and> payload_field (rejection_payload B rv w) (ascii ''ts'') = Inr (JStr (now_iso w))
    \<and> (case payload_field (rejection_payload B rv w) (ascii ''stack'') of
          Inl e \<Rightarrow> False | Inr v \<Rightarrow> is_string v)
    \<and> payload_field (rejection_payload B rv w) (ascii ''extra'') = Inr JUndefined)"
proof (intro conjI impI)
  assume a: "\<not> isl (fst (error_payload B ev w))"
  define m where "m = js_or (ev_message ev) (JStr (ascii ''Script error''))"
  define x where "x = object_literal
              [(ascii ''filename'', ev_filename ev),
               (ascii ''lineno'', ev_lineno ev),
               (ascii ''colno'', ev_colno ev)]"
  from a obtain st w1 where
    eq: "error_payload B ev w = buildPayload B (JStr (ascii ''error'')) m
           (object_literal [(ascii ''stack'', st), (ascii ''extra'', x)]) w1"
    and r: "href w1 = href w" "userAgent w1 = userAgent w" "now_iso w1 = now_iso w"
    unfolding m_def x_def by (rule error_payload_built)
  define md where "md = object_literal [(ascii ''stack'', st), (ascii ''extra'', x)]"
  from a eq have ok: "\<not> isl (fst (buildPayload B (JStr (ascii ''error'')) m md w1))"
    by (simp add: md_def)
  have na: "\<not> is_accessor md (ascii ''stack'')" "\<not> is_accessor md (ascii ''extra'')"
    by (simp_all add: md_def not_accessor_literal)
  note f = buildPayload_fields [OF na ok]
  have ex: "(if truthy (field md (ascii ''extra'')) then field md (ascii ''extra'') else JUndefined) = x"
    by (simp add: md_def field_extra_literal) (simp add: x_def truthy_object_literal)
  have eq': "error_payload B ev w = buildPayload B (JStr (ascii ''error'')) m md w1"
    by (simp only: eq md_def)
  show "payload_keys (error_payload B ev w) =
        Inr (map ascii [''level'', ''message'', ''url'', ''ua'', ''ts'', ''stack'', ''extra''])"
    unfolding eq' by (rule f)
  show "payload_field (error_payload B ev w) (ascii ''level'') = Inr (JStr (ascii ''error''))"
    unfolding eq' by (rule f)
  show "payload_field (error_payload B ev w) (ascii ''url'') = Inr (JStr (href w))"
    unfolding eq' using f(3) r by simp
  show "payload_field (error_payload B ev w) (ascii ''ua'') = Inr (JStr (userAgent w))"
    unfolding eq' using f(4) r by simp
  show "payload_field (error_payload B ev w) (ascii ''ts'') = Inr (JStr (now_iso w))"
    unfolding eq' using f(5) r by simp
  show "case payload_field (error_payload B ev w) (ascii ''stack'') of
          Inl e \<Rightarrow> False | Inr v \<Rightarrow> is_string v"
    unfolding eq' using f(6) by auto
  show "payload_field (error_payload B ev w) (ascii ''extra'') =
        Inr (object_literal
               [(ascii ''filename'', ev_filename ev),
                (ascii ''lineno'', ev_lineno ev),
                (ascii ''colno'', ev_colno ev)])"
    unfolding eq' using f(7) ex by (simp add: x_def)
next
  assume a: "\<not> isl (fst (rejection_payload B rv w))"
  from a obtain m st w1 w2 where
    eq: "rejection_payload B rv w =
           buildPayload B (JStr (ascii ''error'')) m (object_literal [(ascii ''stack'', st)]) w2"
    and r: "href w2 = href w" "userAgent w2 = userAgent w" "now_iso w2 = now_iso w"
    by (rule rejection_payload_built)
  define md where "md = object_literal [(ascii ''stack'', st)]"
  from a eq have ok: "\<not> isl (fst (buildPayload B (JStr (ascii ''error'')) m md w2))"
    by (simp add: md_def)
  have na: "\<not> is_accessor md (ascii ''stack'')" "\<not> is_accessor md (ascii ''extra'')"
    by (simp_all add: md_def not_accessor_literal)
  note f = buildPayload_fields [OF na ok]
  have ex: "(if truthy (field md (ascii ''extra'')) then field md (ascii ''extra'') else JUndefined) = JUndefined"
    by (simp add: md_def field_extra_literal)
  have eq': "rejection_payload B rv w = buildPayload B (JStr (ascii ''error'')) m md w2"
    by (simp only: eq md_def)
  show "payload_keys (rejection_payload B rv w) =
        Inr (map ascii [''level'', ''message'', ''url'', ''ua'', ''ts'', ''stack'', ''extra''])"
    unfolding eq' by (rule f)
  show "payload_field (rejection_payload B rv w) (ascii ''level'') = Inr (JStr (ascii ''error''))"
    unfolding eq' by (rule f)
  show "payload_field (rejection_payload B rv w) (ascii ''url'') = Inr (JStr (href w))"
    unfolding eq' using f(3) r by simp
  show "payload_field (rejection_payload B rv w) (ascii ''ua'') = Inr (JStr (userAgent w))"
    unfolding eq' using f(4) r by simp
  show "payload_field (rejection_payload B rv w) (ascii ''ts'') = Inr (JStr (now_iso w))"
    unfolding eq' using f(5) r by simp
  show "case payload_field (rejection_payload B rv w) (ascii ''stack'') of
          Inl e \<Rightarrow> False | Inr v \<Rightarrow> is_string v"
    unfolding eq' using f(6) by auto
  show "payload_field (rejection_payload B rv w) (ascii ''extra'') = Inr JUndefined"
    unfolding eq' using f(7) ex by simp
qed

theorem payload_shape_witness:
  "\<not> isl (fst (error_payload sample_builtins sample_error_event sample_browser))
   \<and> payload_keys (error_payload sample_builtins sample_error_event sample_browser) =
        Inr (map ascii [''level'', ''message'', ''url'', ''ua'', ''ts'', ''stack'', ''extra''])
   \<and> payload_field (error_payload sample_builtins sample_error_event sample_browser) (ascii ''ts'')
        = Inr (JStr (ascii ''2024-01-01T00:00:00.000Z''))
   \<and> \<not> isl (fst (rejection_payload sample_builtins \<lparr>ev_reason = boom_reason\<rparr> sample_browser))
   \<and> payload_field (rejection_payload sample_builtins \<lparr>ev_reason = boom_reason\<rparr> sample_browser)
        (ascii ''extra'') = Inr JUndefined"
  using payload_shape [of sample_builtins sample_error_event sample_browser
      "\<lparr>ev_reason = boom_reason\<rparr>"]
  by (simp add: eval_defs ascii_def)

text \<open>
  C4 as stated fails on the names: the payload has no field \<open>userAgent\<close> and no field
  \<open>timestamp\<close>; the code calls them \<open>ua\<close> and \<open>ts\<close>.
\<close>

theorem payload_names_counterexample:
  "payload_keys (error_payload sample_builtins sample_error_event sample_browser)
     \<noteq> Inr (map ascii [''level'', ''message'', ''url'', ''userAgent'', ''timestamp'', ''stack'', ''extra''])
   \<and> payload_field (error_payload sample_builtins sample_error_event sample_browser)
        (ascii ''userAgent'') = Inr JUndefined
   \<and> payload_field (error_payload sample_builtins sample_error_event sample_browser)
        (ascii ''timestamp'') = Inr JUndefined"
  by (simp add: eval_defs ascii_def)

text \<open>
  C5, as the code has it. For a rejection whose reason is not a string, the payload's
  message is the reason's \<open>message\<close> property cut by \<open>truncate\<close> when that property
  is truthy, and \<open>Unhandled promise rejection\<close> otherwise; for an error event whose
  message is falsy it is \<open>Script error\<close>. The listener reads the property twice: when
  it is a getter, the first value read decides and the second is the message (the empty
  string when that one is falsy).
\<close>

theorem listener_message:
  "(\<not> is_string (ev_reason rv) \<and> \<not> is_accessor (ev_reason rv) (ascii ''message'')
        \<and> \<not> isl (fst (rejection_payload B rv w)) \<longrightarrow>
      payload_field (rejection_payload B rv w) (ascii ''message'') =
        Inr (if truthy (field (ev_reason rv) (ascii ''message''))
             then truncate (field (ev_reason rv) (ascii ''message''))
             else JStr (ascii ''Unhandled promise rejection'')))
   \<and> (\<not> is_string (ev_reason rv) \<and> \<not> isl (fst (rejection_payload B rv w)) \<longrightarrow>
      payload_field (rejection_payload B rv w) (ascii ''message'') =
        Inr (if truthy (first_read B (ev_reason rv) (ascii ''message'') w)
             then truncate (js_or (second_read B (ev_reason rv) (ascii ''message'') w) (JStr []))
             else JStr (ascii ''Unhandled promise rejection'')))
   \<and> (\<not> truthy (ev_message ev) \<and> \<not> isl (fst (error_payload B ev w)) \<longrightarrow>
      payload_field (error_payload B ev w) (ascii ''message'') = Inr (JStr (ascii ''Script error'')))"
proof -
  have general: "payload_field (rejection_payload B rv w) (ascii ''message'') =
        Inr (if truthy (first_read B (ev_reason rv) (ascii ''message'') w)
             then truncate (js_or (second_read B (ev_reason rv) (ascii ''message'') w) (JStr []))
             else JStr (ascii ''Unhandled promise rejection''))"
    if a: "\<not> is_string (ev_reason rv)" "\<not> isl (fst (rejection_payload B rv w))"
  proof -
    from a(2) obtain m st w1 w2 where
      msg: "rejection_message B (ev_reason rv) w = (Inr m, w1)" and
      eq: "rejection_payload B rv w =
           buildPayload B (JStr (ascii ''error'')) m (object_literal [(ascii ''stack'', st)]) w2"
      by (rule rejection_payload_built)
    define md where "md = object_literal [(ascii ''stack'', st)]"
    from a(2) eq have ok: "\<not> isl (fst (buildPayload B (JStr (ascii ''error'')) m md w2))"
      by (simp add: md_def)
    have na: "\<not> is_accessor md (ascii ''stack'')" "\<not> is_accessor md (ascii ''extra'')"
      by (simp_all add: md_def not_accessor_literal)
    have "payload_field (buildPayload B (JStr (ascii ''error'')) m md w2) (ascii ''message'')
        = Inr (truncate (js_or m (JStr [])))"
      by (rule buildPayload_fields(2) [OF na ok])
    moreover have "truncate (js_or m (JStr [])) =
       (if truthy (first_read B (ev_reason rv) (ascii ''message'') w)
        then truncate (js_or (second_read B (ev_reason rv) (ascii ''message'') w) (JStr []))
        else JStr (ascii ''Unhandled promise rejection''))"
      unfolding rejection_message_value [OF msg a(1)]
      by (simp add: js_or_def placeholder_short truthy_placeholder del: truncate.simps)
    ultimately show ?thesis by (simp only: eq md_def)
  qed
  have data: "payload_field (rejection_payload B rv w) (ascii ''message'') =
        Inr (if truthy (field (ev_reason rv) (ascii ''message''))
             then truncate (field (ev_reason rv) (ascii ''message''))
             else JStr (ascii ''Unhandled promise rejection''))"
    if a: "\<not> is_string (ev_reason rv)" "\<not> is_accessor (ev_reason rv) (ascii ''message'')"
      "\<not> isl (fst (rejection_payload B rv w))"
  proof (cases "truthy (ev_reason rv)")
    case True
    from general [OF a(1) a(3)] reads_of_data [OF a(2) True, of B w]
    show ?thesis by (simp add: js_or_def del: truncate.simps)
  next
    case False
    from general [OF a(1) a(3)] first_read_falsy [OF False, of B "ascii ''message''" w]
      field_falsy [OF False, of "ascii ''message''"]
    show ?thesis by (simp del: truncate.simps)
  qed
  have err: "payload_field (error_payload B ev w) (ascii ''message'') = Inr (JStr (ascii ''Script error''))"
    if a: "\<not> truthy (ev_message ev)" "\<not> isl (fst (error_payload B ev w))"
  proof -
    from a(2) obtain st w1 where
      eq: "error_payload B ev w =
       buildPayload B (JStr (ascii ''error''))
         (js_or (ev_message ev) (JStr (ascii ''Script error'')))
         (object_literal
            [(ascii ''stack'', st),
             (ascii ''extra'', object_literal
                [(ascii ''filename'', ev_filename ev),
                 (ascii ''lineno'', ev_lineno ev),
                 (ascii ''colno'', ev_colno ev)])]) w1"
      by (rule error_payload_built)
    define md where "md = object_literal
            [(ascii ''stack'', st),
             (ascii ''extra'', object_literal
                [(ascii ''filename'', ev_filename ev),
                 (ascii ''lineno'', ev_lineno ev),
                 (ascii ''colno'', ev_colno ev)])]"
    from a(2) eq have ok: "\<not> isl (fst (buildPayload B (JStr (ascii ''error''))
       (js_or (ev_message ev) (JStr (ascii ''Script error''))) md w1))"
      by (simp add: md_def)
    have na: "\<not> is_accessor md (ascii ''stack'')" "\<not> is_accessor md (ascii ''extra'')"
      by (simp_all add: md_def not_accessor_literal)
    have "truncate (js_or (js_or (ev_message ev) (JStr (ascii ''Script error''))) (JStr []))
        = JStr (ascii ''Script error'')"
      using a(1) by (simp add: js_or_def placeholder_short truthy_placeholder del: truncate.simps)
    with buildPayload_fields(2) [OF na ok] show ?thesis
      by (simp only: eq md_def)
  qed
  from general data err show ?thesis by blast
qed

theorem listener_message_witness:
  "\<not> is_string boom_reason
   \<and> \<not> is_accessor boom_reason (ascii ''message'')
   \<and> \<not> isl (fst (rejection_payload sample_builtins \<lparr>ev_reason = boom_reason\<rparr> sample_browser))
   \<and> payload_field (rejection_payload sample_builtins \<lparr>ev_reason = boom_reason\<rparr> sample_browser)
        (ascii ''message'') = Inr (JStr (ascii ''boom''))
   \<and> \<not> truthy (ev_message silent_error_event)
   \<and> \<not> isl (fst (error_payload sample_builtins silent_error_event sample_browser))
   \<and> payload_field (error_payload sample_builtins silent_error_event sample_browser)
        (ascii ''message'') = Inr (JStr (ascii ''Script error''))
   \<and> \<not> is_string getter_reason
   \<and> \<not> isl (fst (rejection_payload sample_builtins_calling \<lparr>ev_reason = getter_reason\<rparr>
                    sample_browser))
   \<and> payload_field (rejection_payload sample_builtins_calling \<lparr>ev_reason = getter_reason\<rparr>
                      sample_browser)
        (ascii ''message'') = Inr (JStr (ascii ''Error: boom''))"
  using listener_message [of "\<lparr>ev_reason = boom_reason\<rparr>" sample_builtins sample_browser
      silent_error_event]
    listener_message [of "\<lparr>ev_reason = getter_reason\<rparr>" sample_builtins_calling sample_browser]
  by (simp add: eval_defs ascii_def first_read_def second_read_def getter_reason_def)

text \<open>
  C5 as stated fails for a long message: the payload carries the first 500 code units
  and the ellipsis, not the reason's message itself.
\<close>

theorem listener_message_counterexample:
  "\<not> is_string long_reason
   \<and> field long_reason (ascii ''message'') = JStr (replicate 501 0x61)
   \<and> payload_field (rejection_payload sample_builtins \<lparr>ev_reason = long_reason\<rparr> sample_browser)
        (ascii ''message'') = Inr (JStr (replicate 500 0x61 @ ELLIPSIS))
   \<and> replicate 500 0x61 @ ELLIPSIS \<noteq> replicate 501 (0x61 :: 16 word)"
proof -
  have ne: "replicate 500 0x61 @ ELLIPSIS \<noteq> replicate 501 (0x61 :: 16 word)"
  proof
    assume "replicate 500 0x61 @ ELLIPSIS = replicate 501 (0x61 :: 16 word)"
    then have "last (replicate 500 0x61 @ ELLIPSIS) = last (replicate 501 (0x61 :: 16 word))"
      by simp
    then show False by (simp add: ELLIPSIS_def)
  qed
  have "payload_field (rejection_payload sample_builtins \<lparr>ev_reason = long_reason\<rparr> sample_browser)
        (ascii ''message'') = Inr (JStr (replicate 500 0x61 @ ELLIPSIS))"
    by (simp add: eval_defs ascii_def)
  moreover have "field long_reason (ascii ''message'') = JStr (replicate 501 0x61)"
    by (simp add: eval_defs ascii_def)
  moreover have "\<not> is_string long_reason" by (simp add: eval_defs)
  ultimately show ?thesis using ne by simp
qed

section \<open>Properties of send\<close>







section \<open>Properties of the rate limiter\<close>

lemma retained_store [simp]: "retained (store st k ts) k = ts"
  by (simp add: retained_def store_def)

lemma retained_store_other [simp]: "k' \<noteq> k \<Longrightarrow> retained (store st k ts) k' = retained st k'"
  by (simp add: retained_def store_def)

lemma within_window_all:
  "\<forall>t \<in> set ts. \<not> t < now - W \<Longrightarrow> within_window W now ts = ts"
  by (simp add: within_window_def)

lemma within_window_none:
  "\<forall>t \<in> set ts. t < now - W \<Longrightarrow> within_window W now ts = []"
  by (simp add: within_window_def)

lemma length_within_window: "length (within_window W now ts) \<le> length ts"
  by (simp add: within_window_def)

lemma admit_all_general:
  assumes "one_window W (pre @ stamps)" and "retained st k = pre"
  shows "fst (admit_all L W st k stamps)
           = replicate (min (L - length pre) (length stamps)) True
             @ replicate (length stamps - (L - length pre)) False
       \<and> retained (snd (admit_all L W st k stamps)) k = pre @ take (L - length pre) stamps"
  using assms
proof (induction stamps arbitrary: st pre)
  case Nil
  then show ?case by simp
next
  case (Cons now later)
  have keep: "within_window W now pre = pre"
    using Cons.prems(1) by (intro within_window_all) (auto simp: one_window_def)
  show ?case
  proof (cases "length pre < L")
    case True
    define st' where "st' = store st k (pre @ [now])"
    have a: "admit L W st k now = (True, st')"
      using True by (simp add: admit_def Cons.prems(2) keep st'_def)
    have w: "one_window W ((pre @ [now]) @ later)" using Cons.prems(1) by simp
    have r: "retained st' k = pre @ [now]" by (simp add: st'_def)
    from Cons.IH [OF w r] True obtain L' where L': "L - length pre = Suc L'"
      by (cases "L - length pre") auto
    then have L'': "L - Suc (length pre) = L'" by simp
    from Cons.IH [OF w r] show ?thesis
      by (auto simp: a L' L'' split: prod.splits)
  next
    case False
    define st' where "st' = store st k pre"
    have a: "admit L W st k now = (False, st')"
      using False by (simp add: admit_def Cons.prems(2) keep st'_def)
    have w: "one_window W (pre @ later)" using Cons.prems(1) by (auto simp: one_window_def)
    have r: "retained st' k = pre" by (simp add: st'_def)
    from False have z: "L - length pre = 0" by simp
    from Cons.IH [OF w r] show ?thesis
      by (auto simp: a z split: prod.splits)
  qed
qed

lemma admit_all_after_idle:
  assumes w: "one_window W calls"
    and old: "\<forall>p \<in> set (retained st k). \<forall>t \<in> set calls. p < t - W"
    and n: "length calls > L"
  shows "fst (admit_all L W st k calls) = replicate L True @ replicate (length calls - L) False
       \<and> retained (snd (admit_all L W st k calls)) k = take L calls"
proof -
  from n obtain c cs where calls: "calls = c # cs" by (cases calls) auto
  have gone: "within_window W c (retained st k) = []"
    using old by (intro within_window_none) (simp add: calls)
  show ?thesis
  proof (cases L)
    case 0
    define st' where "st' = store st k []"
    have a: "admit 0 W st k c = (False, st')"
      by (simp add: admit_def gone st'_def)
    have w': "one_window W ([] @ cs)" using w by (auto simp: one_window_def calls)
    have r: "retained st' k = []" by (simp add: st'_def)
    from admit_all_general [OF w' r, of 0] show ?thesis
      unfolding 0 calls by (auto simp: a split: prod.splits)
  next
    case (Suc L')
    define st' where "st' = store st k [c]"
    have a: "admit (Suc L') W st k c = (True, st')"
      by (simp add: admit_def gone st'_def)
    have w': "one_window W ([c] @ cs)" using w by (simp add: calls)
    have r: "retained st' k = [c]" by (simp add: st'_def)
    from n have m: "min L' (length cs) = L'" by (simp add: calls Suc)
    from admit_all_general [OF w' r, of "Suc L'"] show ?thesis
      unfolding Suc calls by (auto simp: a m split: prod.splits)
  qed
qed

lemma admit_rejected:
  "\<not> fst (admit L W st k now) \<Longrightarrow>
     retained (snd (admit L W st k now)) k = within_window W now (retained st k)"
  by (simp add: admit_def Let_def split: if_splits)

text \<open>
  C3, as the model has it. Take more than \<open>limit\<close> calls of \<open>admit\<close> for one
  source, at times that fall within one window, in any order (\<open>calls\<close> is any
  arrangement of \<open>stamps\<close>), by a source that has no timestamp left to count: it
  was never seen, or what it did before is older than one window at each of the calls.
  Exactly \<open>limit\<close> calls are admitted, the first ones, and all the others are
  rejected; only the admitted calls are recorded. A rejected call records nothing: the
  bucket then holds what was retained before.
\<close>

theorem admit_exactly_limit:
  assumes "one_window windowSize stamps"
    and "mset calls = mset stamps"
    and "\<forall>p \<in> set (retained st sourceId). \<forall>t \<in> set stamps. p < t - windowSize"
    and "length stamps > limit"
  shows "length (filter id (fst (admit_all limit windowSize st sourceId calls))) = limit
     \<and> length (filter Not (fst (admit_all limit windowSize st sourceId calls))) = length stamps - limit
     \<and> fst (admit_all limit windowSize st sourceId calls)
         = replicate limit True @ replicate (length stamps - limit) False
     \<and> retained (snd (admit_all limit windowSize st sourceId calls)) sourceId = take limit calls
     \<and> (\<not> fst (admit limit windowSize st' sourceId now) \<longrightarrow>
          retained (snd (admit limit windowSize st' sourceId now)) sourceId
            = within_window windowSize now (retained st' sourceId))"
proof -
  have s: "set calls = set stamps" using assms(2) by (rule mset_eq_setD)
  have l: "length calls = length stamps" using assms(2) by (rule mset_eq_length)
  have w: "one_window windowSize calls"
    using assms(1) by (simp add: one_window_def s)
  have old: "\<forall>p \<in> set (retained st sourceId). \<forall>t \<in> set calls. p < t - windowSize"
    using assms(3) by (simp add: s)
  have n: "length calls > limit" using assms(4) by (simp add: l)
  from admit_all_after_idle [OF w old n] l admit_rejected [of limit windowSize st' sourceId now]
  show ?thesis by simp
qed

theorem admit_exactly_limit_witness:
  "one_window 60 [100, 110, 120] \<and> mset [120, 100, 110] = mset [100, 110, 120 :: int]
   \<and> retained [''10.0.0.1'' \<mapsto> [5 :: int, 6]] ''10.0.0.1'' = [5, 6]
   \<and> (5 :: int) < 100 - 60 \<and> (6 :: int) < 100 - 60
   \<and> length [100, 110, 120 :: int] > 2
   \<and> fst (admit_all 2 60 [''10.0.0.1'' \<mapsto> [5, 6]] ''10.0.0.1'' [120, 100, 110]) = [True, True, False]
   \<and> retained (snd (admit_all 2 60 [''10.0.0.1'' \<mapsto> [5, 6]] ''10.0.0.1'' [120, 100, 110])) ''10.0.0.1''
        = [120, 100]
   \<and> \<not> fst (admit 2 60 [''10.0.0.1'' \<mapsto> [120, 100]] ''10.0.0.1'' 110)
   \<and> retained (snd (admit 2 60 [''10.0.0.1'' \<mapsto> [120, 100]] ''10.0.0.1'' 110)) ''10.0.0.1''
        = [120, 100]"
  using admit_exactly_limit [of 60 "[100, 110, 120]" "[120, 100, 110]" "[''10.0.0.1'' \<mapsto> [5, 6]]"
      "''10.0.0.1''" 2 "[''10.0.0.1'' \<mapsto> [120, 100]]" 110]
  by (simp add: one_window_def retained_def admit_def within_window_def store_def)

text \<open>
  C3 as stated fails for a source with recent history: after two admitted events at 50
  and 55, with limit 2 and a window of 60, the calls at 100, 105 and 120 lie within one
  window, yet the first two are rejected and only the third is admitted.
\<close>

theorem admit_recent_history_counterexample:
  "retained (serve_all 2 60 [Admit ''10.0.0.1'' 50, Admit ''10.0.0.1'' 55]) ''10.0.0.1'' = [50, 55]
   \<and> one_window 60 [100, 105, 120]
   \<and> length [100, 105, 120 :: int] > 2
   \<and> fst (admit_all 2 60 (serve_all 2 60 [Admit ''10.0.0.1'' 50, Admit ''10.0.0.1'' 55])
            ''10.0.0.1'' [100, 105, 120]) = [False, False, True]
   \<and> length (filter id [False, False, True]) \<noteq> 2"
  by (simp add: serve_all_def one_window_def retained_def admit_def within_window_def store_def)

lemma retained_sweep: "retained (sweep W st now) k = within_window W now (retained st k)"
  by (simp add: retained_def sweep_def within_window_def Let_def split: option.splits)

lemma retained_admit_other:
  "k' \<noteq> k \<Longrightarrow> retained (snd (admit L W st k now)) k' = retained st k'"
  by (simp add: admit_def Let_def)

lemma retained_admit_bound:
  assumes "length (retained st k) \<le> L"
  shows "length (retained (snd (admit L W st k now)) k) \<le> L"
proof -
  have "length (within_window W now (retained st k)) \<le> L"
    using assms length_within_window [of W now "retained st k"] by linarith
  then show ?thesis by (simp add: admit_def Let_def)
qed

lemma serve_bound:
  assumes "\<forall>k. length (retained st k) \<le> L"
  shows "\<forall>k. length (retained (serve L W st r) k) \<le> L"
proof (cases r)
  case (Admit k' now)
  show ?thesis
  proof
    fix k
    show "length (retained (serve L W st r) k) \<le> L"
      using assms retained_admit_bound [of st k' L W now] retained_admit_other [of k k' L W st now]
      by (cases "k = k'") (simp_all add: Admit)
  qed
next
  case (Sweep now)
  show ?thesis
  proof
    fix k
    have "length (within_window W now (retained st k)) \<le> length (retained st k)"
      by (rule length_within_window)
    with assms show "length (retained (serve L W st r) k) \<le> L"
      by (simp add: Sweep retained_sweep) (meson le_trans)
  qed
qed

lemma foldl_serve_bound:
  "\<forall>k. length (retained st k) \<le> L \<Longrightarrow>
   \<forall>k. length (retained (foldl (serve L W) st reqs) k) \<le> L"
proof (induction reqs arbitrary: st)
  case Nil
  then show ?case by simp
next
  case (Cons r reqs)
  from serve_bound [OF Cons.prems] have "\<forall>k. length (retained (serve L W st r) k) \<le> L" .
  from Cons.IH [OF this] show ?case by simp
qed

lemma admit_idle:
  assumes "\<forall>t \<in> set (retained st k). t < now - W"
  shows "fst (admit L W st k now) = (0 < L)"
    and "retained (snd (admit L W st k now)) k = (if 0 < L then [now] else [])"
  using within_window_none [OF assms] by (simp_all add: admit_def)

text \<open>
  C8. In every state the limiter reaches, no source has more than \<open>limit\<close> retained
  timestamps. When all the timestamps retained for a source are older than one window,
  \<open>admit\<close> answers as it does for a source never seen, and leaves the same bucket.
\<close>

theorem idle_source_is_new:
  "(\<forall>k. length (retained (serve_all limit windowSize reqs) k) \<le> limit)
   \<and> ((\<forall>t \<in> set (retained (serve_all limit windowSize reqs) sourceId). t < now - windowSize) \<longrightarrow>
        fst (admit limit windowSize (serve_all limit windowSize reqs) sourceId now)
          = fst (admit limit windowSize Map.empty sourceId now)
      \<and> retained (snd (admit limit windowSize (serve_all limit windowSize reqs) sourceId now)) sourceId
          = retained (snd (admit limit windowSize Map.empty sourceId now)) sourceId)"
proof -
  have e: "\<forall>t \<in> set (retained (Map.empty :: 'a \<Rightarrow> int list option) sourceId). t < now - windowSize"
    by (simp add: retained_def)
  have "\<forall>k. length (retained (serve_all limit windowSize reqs) k) \<le> limit"
    unfolding serve_all_def by (rule foldl_serve_bound) (simp add: retained_def)
  then show ?thesis
    using admit_idle [OF e, of limit] by (auto simp: admit_idle)
qed

theorem idle_source_is_new_witness:
  "retained (serve_all 2 60 [Admit ''10.0.0.1'' 0, Admit ''10.0.0.1'' 1, Admit ''10.0.0.1'' 2]) ''10.0.0.1'' = [0, 1]
   \<and> (0 :: int) < 100 - 60 \<and> (1 :: int) < 100 - 60
   \<and> fst (admit 2 60 (serve_all 2 60 [Admit ''10.0.0.1'' 0, Admit ''10.0.0.1'' 1, Admit ''10.0.0.1'' 2]) ''10.0.0.1'' 100)
   \<and> fst (admit 2 60 (Map.empty :: string \<Rightarrow> int list option) ''10.0.0.1'' 100)
   \<and> retained (snd (admit 2 60 (serve_all 2 60 [Admit ''10.0.0.1'' 0, Admit ''10.0.0.1'' 1, Admit ''10.0.0.1'' 2]) ''10.0.0.1'' 100)) ''10.0.0.1'' = [100]"
  using idle_source_is_new [of 2 60 "[Admit ''10.0.0.1'' 0, Admit ''10.0.0.1'' 1, Admit ''10.0.0.1'' 2]" "''10.0.0.1''" 100]
  by (simp add: serve_all_def retained_def admit_def within_window_def store_def)

section \<open>Properties of the redactor\<close>








lemma in_atoms_SSeq: "a \<in> set (atoms (SSeq vs)) \<longleftrightarrow> (\<exists>v \<in> set vs. a \<in> set (atoms v))"
  by simp












lemma redact_beyond_cap:
  "\<not> is_sensitive S ''context'' \<Longrightarrow> redact cap S (nest cap v) = nest cap v"
  by (induction cap) auto

lemma redact_keeps_repeated_value:
  "redact 2 SENSITIVE_FIELDS (SMap [(''password'', SText ''abc''), (''note'', SText ''abc'')])
     = SMap [(''password'', REDACTED), (''note'', SText ''abc'')]"
  by code_simp

end
